theory Spec2Isabelle
  imports Main "HOL-Library.Multiset" "HOL-Library.Sublist"
begin

section \<open>The icon generator: GenerateIcons/generate.py\<close>

text \<open>
  The script opens one master image with Pillow, resizes it to eight fixed square sizes and
  saves each copy as a PNG file under \<^verbatim>\<open>public/icons\<close>. Everything it does is an effect on
  the file system, on the console or on Pillow's image objects, so the embedding threads an
  explicit world through every call and returns raised exceptions as values.

  What lies outside the script (the operating system and the Pillow library) is modelled
  after its documented behaviour; what that behaviour leaves open (which pixels the Lanczos
  filter computes, whether the operating system refuses an access, what an interrupted
  write leaves behind) is a field of the record \<open>env\<close>, fixed for a run, and every theorem
  holds for every such environment.

  \<^item> Paths are POSIX path strings, compared literally: the file system maps a path string
    to the entry that string names, two different strings name two different entries, and
    symbolic links are not modelled.
  \<^item> When a path names no entry, the operating system looks at the directories on the way:
    the first one that is missing gives \<^verbatim>\<open>ENOENT\<close>, a regular file in the place of one gives
    \<^verbatim>\<open>ENOTDIR\<close>. A path with a NUL byte is refused by Python, an over-long path or
    component by the operating system (the limits are those of Linux).
  \<^item> Strings are byte strings in UTF-8; the two emoji of the messages are three bytes each.
  \<^item> Writing to the console always succeeds.
\<close>

subsection \<open>Data\<close>

type_synonym path = string

datatype exn =
    FileNotFoundError
  | FileExistsError
  | IsADirectoryError
  | NotADirectoryError
  | PermissionError
  | UnidentifiedImageError
  | ValueError
  | MemoryError
  | OSError

datatype fmt = PNG | JPEG | BMP | GIF

record image =
  img_size :: "int \<times> int"
  img_data :: "nat list"

text \<open>
  A regular file holds either an image encoded in some format (identified with the raster it
  decodes to) or bytes that no decoder accepts.
\<close>

datatype content = Encoded fmt image | Raw "nat list"

datatype node = Dir | File content

text \<open>
  The trace records, in order, every completed resize, every completed save and every line
  printed; the printed lines are the program's console output.
\<close>

datatype event = EvPrint string | EvResize "int \<times> int" | EvSave path

record world =
  w_fs :: "path \<rightharpoonup> node"
  w_trace :: "event list"
  w_open :: "path multiset"

record env =
  read_fault :: "path \<Rightarrow> exn option"
  resize_fault :: "image \<Rightarrow> int \<times> int \<Rightarrow> exn option"
  lanczos :: "image \<Rightarrow> int \<times> int \<Rightarrow> nat list"
  open_fault :: "path \<Rightarrow> exn option"
  write_fault :: "fmt \<Rightarrow> image \<Rightarrow> path \<Rightarrow> exn option"
  leftover :: "path \<Rightarrow> content option"
  mkdir_fault :: "path \<Rightarrow> exn option"

type_synonym 'a io = "world \<Rightarrow> (exn + 'a) \<times> world"

subsection \<open>The constants of the script\<close>

definition source_file :: path where
  "source_file = ''GenerateIcons/master-icon.png''"

definition output_dir :: path where
  "output_dir = ''public/icons''"

definition sizes :: "int list" where
  "sizes = [72, 96, 128, 144, 152, 192, 384, 512]"

subsection \<open>Formatting\<close>

definition digit_char :: "nat \<Rightarrow> char" where
  "digit_char d = ''0123456789'' ! d"

fun str_nat :: "nat \<Rightarrow> string" where
  "str_nat n = (if n < 10 then [digit_char n] else str_nat (n div 10) @ [digit_char (n mod 10)])"

declare str_nat.simps [simp del]

definition str_int :: "int \<Rightarrow> string" where
  "str_int i = (if i < 0 then CHR ''-'' # str_nat (nat (- i)) else str_nat (nat i))"

definition check_mark :: string where
  "check_mark = [CHR 0xE2, CHR 0x9C, CHR 0x85]"

definition cross_mark :: string where
  "cross_mark = [CHR 0xE2, CHR 0x9D, CHR 0x8C]"

definition icon_path :: "int \<Rightarrow> path" where
  "icon_path sz = output_dir @ ''/icon-'' @ str_int sz @ ''x'' @ str_int sz @ ''.png''"

definition created_msg :: "int \<Rightarrow> string" where
  "created_msg sz = check_mark @ '' Created: '' @ icon_path sz"

definition not_found_msg :: "path \<Rightarrow> string" where
  "not_found_msg source_path =
     cross_mark @ '' Error: Could not find '' @ source_path @ ''. Check your folder names!''"

subsection \<open>Paths (posixpath)\<close>

definition is_sep :: "char \<Rightarrow> bool" where
  "is_sep c = (c = CHR ''/'')"

definition rstrip_sep :: "path \<Rightarrow> path" where
  "rstrip_sep p = rev (dropWhile is_sep (rev p))"

text \<open>\<^verbatim>\<open>posixpath.split\<close>: everything after the last slash is the tail.\<close>

definition path_split :: "path \<Rightarrow> path \<times> path" where
  "path_split p =
     (let tail = rev (takeWhile (\<lambda>c. \<not> is_sep c) (rev p));
          head = take (length p - length tail) p
      in (if head \<noteq> [] \<and> \<not> list_all is_sep head then rstrip_sep head else head, tail))"

text \<open>\<^verbatim>\<open>posixpath.splitext\<close>, second component: the extension of the last component.\<close>

definition path_ext :: "path \<Rightarrow> string" where
  "path_ext p =
     (let name = snd (path_split p);
          suffix = rev (takeWhile (\<lambda>c. c \<noteq> CHR ''.'') (rev name));
          stem = take (length name - length suffix - 1) name
      in if CHR ''.'' \<in> set name \<and> dropWhile (\<lambda>c. c = CHR ''.'') stem \<noteq> []
         then CHR ''.'' # suffix else [])"

definition lower_char :: "char \<Rightarrow> char" where
  "lower_char c =
     (case map_of (zip ''ABCDEFGHIJKLMNOPQRSTUVWXYZ'' ''abcdefghijklmnopqrstuvwxyz'') c of
        Some l \<Rightarrow> l
      | None \<Rightarrow> c)"

text \<open>Pillow's registry of file extensions, for the formats of this model.\<close>

definition extension_format :: "string \<Rightarrow> fmt option" where
  "extension_format ext =
     (if ext = ''.png'' then Some PNG
      else if ext = ''.jpg'' \<or> ext = ''.jpeg'' then Some JPEG
      else if ext = ''.bmp'' then Some BMP
      else if ext = ''.gif'' then Some GIF
      else None)"

definition format_of_path :: "path \<Rightarrow> fmt option" where
  "format_of_path p = extension_format (map lower_char (path_ext p))"

subsection \<open>The file system (os, os.path)\<close>

definition path_exists :: "world \<Rightarrow> path \<Rightarrow> bool" where
  "path_exists w p = (p \<noteq> [] \<and> w_fs w p \<noteq> None)"

text \<open>
  What is wrong with the path string itself, whatever is on disk: Python raises \<^verbatim>\<open>ValueError\<close>
  for an embedded NUL byte before any system call, and the system answers \<^verbatim>\<open>ENAMETOOLONG\<close>
  (an \<^verbatim>\<open>OSError\<close>) for a path of more than 4095 bytes before it looks anything up.
\<close>

definition name_fault :: "path \<Rightarrow> exn option" where
  "name_fault p =
     (if CHR 0x00 \<in> set p then Some ValueError
      else if 4095 < length p then Some OSError
      else None)"

text \<open>The last component of a path is longer than the 255 bytes a file name may have.\<close>

definition long_name :: "path \<Rightarrow> bool" where
  "long_name p = (255 < length (takeWhile (\<lambda>c. \<not> is_sep c) (rev p)))"

text \<open>
  The directories on the way to a path: its proper prefixes that end before a slash, the
  shortest first. The empty prefix is the current directory and a prefix of slashes only
  is the root, which both exist.
\<close>

fun ancestors_from :: "path \<Rightarrow> path \<Rightarrow> path list" where
  "ancestors_from pre [] = []"
| "ancestors_from pre (c # cs) =
     (if is_sep c \<and> \<not> list_all is_sep pre then pre # ancestors_from (pre @ [c]) cs
      else ancestors_from (pre @ [c]) cs)"

definition ancestors :: "path \<Rightarrow> path list" where
  "ancestors p = ancestors_from [] p"

text \<open>
  The system looks the directories up one after the other, and the first that fails decides
  the error: a name that is too long gives \<^verbatim>\<open>ENAMETOOLONG\<close>, a missing entry \<^verbatim>\<open>ENOENT\<close>, a
  regular file \<^verbatim>\<open>ENOTDIR\<close>.
\<close>

fun walk_fault :: "world \<Rightarrow> path list \<Rightarrow> exn option" where
  "walk_fault w [] = None"
| "walk_fault w (d # ds) =
     (if long_name d then Some OSError
      else (case w_fs w d of
              None \<Rightarrow> Some FileNotFoundError
            | Some (File c) \<Rightarrow> Some NotADirectoryError
            | Some Dir \<Rightarrow> walk_fault w ds))"

text \<open>
  What the operating system answers before it looks for the entry that a path names: the
  path string must be acceptable, every directory on the way must exist and be a directory,
  and the last component must not be too long.
\<close>

definition parent_fault :: "world \<Rightarrow> path \<Rightarrow> exn option" where
  "parent_fault w p =
     (case name_fault p of
        Some e \<Rightarrow> Some e
      | None \<Rightarrow>
          (case walk_fault w (ancestors p) of
             Some e \<Rightarrow> Some e
           | None \<Rightarrow> if long_name p then Some OSError else None))"

definition mkdir :: "env \<Rightarrow> path \<Rightarrow> unit io" where
  "mkdir E p w =
     (if path_exists w p then (Inl FileExistsError, w)
      else (case parent_fault w p of
              Some e \<Rightarrow> (Inl e, w)
            | None \<Rightarrow>
                (case mkdir_fault E p of
                   Some e \<Rightarrow> (Inl e, w)
                 | None \<Rightarrow> (Inr (), w\<lparr>w_fs := (w_fs w)(p \<mapsto> Dir)\<rparr>))))"

text \<open>The head and tail that \<^verbatim>\<open>os.makedirs\<close> works with: a trailing slash is split off first.\<close>

definition makedirs_parts :: "path \<Rightarrow> path \<times> path" where
  "makedirs_parts name =
     (if snd (path_split name) = [] then path_split (fst (path_split name))
      else path_split name)"

lemma length_rstrip_sep: "length (rstrip_sep p) \<le> length p"
  by (simp add: rstrip_sep_def length_dropWhile_le order_trans [OF length_dropWhile_le])

lemma length_path_split:
  "length (fst (path_split p)) + length (snd (path_split p)) \<le> length p"
proof -
  let ?t = "rev (takeWhile (\<lambda>c. \<not> is_sep c) (rev p))"
  have t: "length ?t \<le> length p"
    using length_takeWhile_le [of "\<lambda>c. \<not> is_sep c" "rev p"] by simp
  have "length (fst (path_split p)) \<le> length p - length ?t"
    using length_rstrip_sep [of "take (length p - length ?t) p"]
    by (simp add: path_split_def Let_def)
  moreover have "snd (path_split p) = ?t"
    by (simp add: path_split_def Let_def)
  ultimately show ?thesis using t by simp
qed

lemma makedirs_parts_shorter:
  assumes "snd (makedirs_parts name) \<noteq> []"
  shows "length (fst (makedirs_parts name)) < length name"
proof (cases "snd (path_split name) = []")
  case True
  then have "makedirs_parts name = path_split (fst (path_split name))"
    by (simp add: makedirs_parts_def)
  with assms length_path_split [of "fst (path_split name)"] length_path_split [of name]
  show ?thesis by (cases "snd (path_split (fst (path_split name)))") auto
next
  case False
  then have "makedirs_parts name = path_split name"
    by (simp add: makedirs_parts_def)
  with assms length_path_split [of name]
  show ?thesis by (cases "snd (path_split name)") auto
qed

text \<open>
  \<^verbatim>\<open>os.makedirs(name)\<close> with \<^verbatim>\<open>exist_ok=False\<close>: create the missing parents first (a
  \<^verbatim>\<open>FileExistsError\<close> from there is passed over), then the leaf.
\<close>

function makedirs :: "env \<Rightarrow> path \<Rightarrow> unit io" where
  "makedirs E name w =
     (if fst (makedirs_parts name) \<noteq> [] \<and> snd (makedirs_parts name) \<noteq> []
          \<and> \<not> path_exists w (fst (makedirs_parts name))
      then (case makedirs E (fst (makedirs_parts name)) w of
              (Inl e, w1) \<Rightarrow>
                if e = FileExistsError
                then (if snd (makedirs_parts name) = ''.'' then (Inr (), w1) else mkdir E name w1)
                else (Inl e, w1)
            | (Inr u, w1) \<Rightarrow>
                if snd (makedirs_parts name) = ''.'' then (Inr (), w1) else mkdir E name w1)
      else mkdir E name w)"
  by pat_completeness auto
termination
  by (relation "measure (\<lambda>(E, name, w). length name)") (auto simp: makedirs_parts_shorter)

declare makedirs.simps [simp del]

subsection \<open>Pillow: Image.open, resize, save\<close>

text \<open>
  \<^verbatim>\<open>Image.open\<close> opens the file for reading and identifies its format; the image it returns
  keeps the file open until it is closed. The path is looked up first: only a path whose
  directories are all there and whose last component is missing, or one with a missing
  directory on the way, gives \<^verbatim>\<open>FileNotFoundError\<close>.
\<close>

definition image_open :: "env \<Rightarrow> path \<Rightarrow> image io" where
  "image_open E p w =
     (case parent_fault w p of
        Some e \<Rightarrow> (Inl e, w)
      | None \<Rightarrow>
          (case w_fs w p of
             None \<Rightarrow> (Inl FileNotFoundError, w)
           | Some Dir \<Rightarrow> (Inl IsADirectoryError, w)
           | Some (File c) \<Rightarrow>
               (case read_fault E p of
                  Some e \<Rightarrow> (Inl e, w)
                | None \<Rightarrow>
                    (case c of
                       Raw bs \<Rightarrow> (Inl UnidentifiedImageError, w)
                     | Encoded f img \<Rightarrow> (Inr img, w\<lparr>w_open := add_mset p (w_open w)\<rparr>)))))"

definition image_close :: "path \<Rightarrow> world \<Rightarrow> world" where
  "image_close p w = w\<lparr>w_open := w_open w - {#p#}\<rparr>"

text \<open>
  \<^verbatim>\<open>Image.resize(size, resample)\<close> returns a new image of the requested size; the
  source's pixel data is decoded here at the latest, which can fail.
\<close>

definition resize :: "env \<Rightarrow> image \<Rightarrow> int \<times> int \<Rightarrow> image io" where
  "resize E img sz w =
     (if fst sz \<le> 0 \<or> snd sz \<le> 0 then (Inl ValueError, w)
      else (case resize_fault E img sz of
              Some e \<Rightarrow> (Inl e, w)
            | None \<Rightarrow>
                (Inr \<lparr>img_size = sz, img_data = lanczos E img sz\<rparr>,
                 w\<lparr>w_trace := w_trace w @ [EvResize sz]\<rparr>)))"

text \<open>
  \<^verbatim>\<open>Image.save(filename)\<close> takes the format from the extension, opens the file for writing
  and encodes into it. When the encoder or a write fails, the target holds whatever the
  environment leaves there (nothing, or a truncated file).
\<close>

definition save :: "env \<Rightarrow> image \<Rightarrow> path \<Rightarrow> unit io" where
  "save E img p w =
     (case format_of_path p of
        None \<Rightarrow> (Inl ValueError, w)
      | Some f \<Rightarrow>
          (if w_fs w p = Some Dir then (Inl IsADirectoryError, w)
           else (case parent_fault w p of
                   Some e \<Rightarrow> (Inl e, w)
                 | None \<Rightarrow>
                     (case open_fault E p of
                        Some e \<Rightarrow> (Inl e, w)
                      | None \<Rightarrow>
                          (case write_fault E f img p of
                             Some e \<Rightarrow>
                               (Inl e, w\<lparr>w_fs := (w_fs w)(p := map_option File (leftover E p))\<rparr>)
                           | None \<Rightarrow>
                               (Inr (),
                                w\<lparr>w_fs := (w_fs w)(p \<mapsto> File (Encoded f img)),
                                  w_trace := w_trace w @ [EvSave p]\<rparr>))))))"

definition print :: "string \<Rightarrow> world \<Rightarrow> world" where
  "print s w = w\<lparr>w_trace := w_trace w @ [EvPrint s]\<rparr>"

subsection \<open>The script\<close>

text \<open>Lines 11 and 12, run when the module is loaded.\<close>

definition startup :: "env \<Rightarrow> unit io" where
  "startup E w =
     (if \<not> path_exists w output_dir then makedirs E output_dir w else (Inr (), w))"

text \<open>The \<^verbatim>\<open>for\<close> loop of \<^verbatim>\<open>generate_icons\<close>, over any list of sizes.\<close>

fun icons_loop :: "env \<Rightarrow> image \<Rightarrow> int list \<Rightarrow> unit io" where
  "icons_loop E img [] w = (Inr (), w)"
| "icons_loop E img (sz # rest) w =
     (case resize E img (sz, sz) w of
        (Inl e, w1) \<Rightarrow> (Inl e, w1)
      | (Inr resized_img, w1) \<Rightarrow>
          (case save E resized_img (icon_path sz) w1 of
             (Inl e, w2) \<Rightarrow> (Inl e, w2)
           | (Inr u, w2) \<Rightarrow> icons_loop E img rest (print (created_msg sz) w2)))"

text \<open>
  The \<^verbatim>\<open>with\<close> statement: the image is closed when the block is left, normally or by an
  exception.
\<close>

definition with_image :: "env \<Rightarrow> path \<Rightarrow> unit io" where
  "with_image E source_path w =
     (case image_open E source_path w of
        (Inl e, w1) \<Rightarrow> (Inl e, w1)
      | (Inr img, w1) \<Rightarrow>
          (case icons_loop E img sizes w1 of
             (r, w2) \<Rightarrow> (r, image_close source_path w2)))"

text \<open>The \<^verbatim>\<open>try\<close> statement: only \<^verbatim>\<open>FileNotFoundError\<close> has a handler.\<close>

definition generate_icons :: "env \<Rightarrow> path \<Rightarrow> unit io" where
  "generate_icons E source_path w =
     (case with_image E source_path w of
        (Inl e, w1) \<Rightarrow>
          if e = FileNotFoundError then (Inr (), print (not_found_msg source_path) w1)
          else (Inl e, w1)
      | (Inr u, w1) \<Rightarrow> (Inr (), w1))"

text \<open>The script run as a program: the module-level statements, then the main guard.\<close>

definition script :: "env \<Rightarrow> unit io" where
  "script E w =
     (case startup E w of
        (Inl e, w1) \<Rightarrow> (Inl e, w1)
      | (Inr u, w1) \<Rightarrow> generate_icons E source_file w1)"

text \<open>What a run adds to the trace, and the lines it prints.\<close>

definition new_events :: "world \<Rightarrow> world \<Rightarrow> event list" where
  "new_events w w' = drop (length (w_trace w)) (w_trace w')"

fun printed :: "event list \<Rightarrow> string list" where
  "printed [] = []"
| "printed (EvPrint s # es) = s # printed es"
| "printed (e # es) = printed es"

text \<open>The image a resize to \<open>sz\<close> by \<open>sz\<close> produces, and the events of one completed size.\<close>

definition resized :: "env \<Rightarrow> image \<Rightarrow> int \<Rightarrow> image" where
  "resized E img sz = \<lparr>img_size = (sz, sz), img_data = lanczos E img (sz, sz)\<rparr>"

definition size_events :: "int \<Rightarrow> event list" where
  "size_events sz = [EvResize (sz, sz), EvSave (icon_path sz), EvPrint (created_msg sz)]"

subsection \<open>Auxiliary notions for the proofs\<close>

text \<open>Decimal digits, and reading a decimal numeral back (the inverse of \<open>str_nat\<close>).\<close>

definition is_digit :: "char \<Rightarrow> bool" where
  "is_digit c = (c \<in> set ''0123456789'')"

definition digit_val :: "char \<Rightarrow> nat" where
  "digit_val c = of_char c - 48"

definition nat_of_str :: "string \<Rightarrow> nat" where
  "nat_of_str ds = foldl (\<lambda>a c. 10 * a + digit_val c) 0 ds"

text \<open>The last component of an icon's path.\<close>

definition icon_name :: "int \<Rightarrow> string" where
  "icon_name sz = ''icon-'' @ str_int sz @ ''x'' @ str_int sz @ ''.png''"

text \<open>What keeps an existing file from being opened for reading.\<close>

definition source_fault :: "env \<Rightarrow> world \<Rightarrow> path \<Rightarrow> exn option" where
  "source_fault E w p =
     (case parent_fault w p of Some e \<Rightarrow> Some e | None \<Rightarrow> read_fault E p)"

text \<open>One pass of the loop body.\<close>

definition iteration :: "env \<Rightarrow> image \<Rightarrow> int \<Rightarrow> unit io" where
  "iteration E img sz w =
     (case resize E img (sz, sz) w of
        (Inl e, w1) \<Rightarrow> (Inl e, w1)
      | (Inr resized_img, w1) \<Rightarrow>
          (case save E resized_img (icon_path sz) w1 of
             (Inl e, w2) \<Rightarrow> (Inl e, w2)
           | (Inr u, w2) \<Rightarrow> (Inr (), print (created_msg sz) w2)))"

text \<open>
  The condition under which one pass succeeds: the size is positive, the resize and the
  two phases of the save meet no fault, the target is not a directory and the directories
  on the way to it are there.
\<close>

definition size_ok :: "env \<Rightarrow> image \<Rightarrow> world \<Rightarrow> int \<Rightarrow> bool" where
  "size_ok E img w sz =
     (0 < sz \<and> resize_fault E img (sz, sz) = None
      \<and> w_fs w (icon_path sz) \<noteq> Some Dir \<and> parent_fault w (icon_path sz) = None
      \<and> open_fault E (icon_path sz) = None
      \<and> write_fault E PNG (resized E img sz) (icon_path sz) = None)"

text \<open>The world after a pass that succeeded.\<close>

definition written :: "env \<Rightarrow> image \<Rightarrow> int \<Rightarrow> world \<Rightarrow> world" where
  "written E img sz w =
     w\<lparr>w_fs := (w_fs w)(icon_path sz \<mapsto> File (Encoded PNG (resized E img sz))),
       w_trace := w_trace w @ size_events sz\<rparr>"

text \<open>
  What holds after the loop has run over \<open>szs\<close>: \<open>k\<close> sizes were completed, \<open>rest_ev\<close> is
  what the pass that failed (if any) still added to the trace.
\<close>

definition loop_post :: "env \<Rightarrow> image \<Rightarrow> int list \<Rightarrow> world \<Rightarrow> (exn + unit) \<times> world \<Rightarrow> nat \<Rightarrow> event list \<Rightarrow> bool" where
  "loop_post E img szs w out k rest_ev =
     (k \<le> length szs \<and> take k szs = takeWhile (size_ok E img w) szs
      \<and> (if fst out = Inr () then k = length szs \<and> rest_ev = []
          else k < length szs \<and> (rest_ev = [] \<or> rest_ev = [EvResize (szs ! k, szs ! k)]))
      \<and> w_trace (snd out) = w_trace w @ concat (map size_events (take k szs)) @ rest_ev
      \<and> w_open (snd out) = w_open w
      \<and> list_all (\<lambda>s. w_fs (snd out) (icon_path s) = Some (File (Encoded PNG (resized E img s))))
           (take k szs)
      \<and> (\<forall>p. p \<notin> icon_path ` set (take (Suc k) szs) \<longrightarrow> w_fs (snd out) p = w_fs w p))"

text \<open>
  A run is successful when it returned normally and did not print the diagnostic of the
  exception handler.
\<close>

definition successful :: "path \<Rightarrow> world \<Rightarrow> (exn + unit) \<times> world \<Rightarrow> bool" where
  "successful source_path w out =
     (fst out = Inr () \<and> EvPrint (not_found_msg source_path) \<notin> set (new_events w (snd out)))"

text \<open>The same for a whole call of \<^verbatim>\<open>generate_icons\<close> that opened its source.\<close>

definition run_post ::
  "env \<Rightarrow> path \<Rightarrow> image \<Rightarrow> world \<Rightarrow> (exn + unit) \<times> world \<Rightarrow> nat \<Rightarrow> event list \<Rightarrow> event list \<Rightarrow> bool" where
  "run_post E src img w out k ev dg =
     (k \<le> length sizes \<and> take k sizes = takeWhile (size_ok E img w) sizes
      \<and> (ev = [] \<or> k < length sizes \<and> ev = [EvResize (sizes ! k, sizes ! k)])
      \<and> (if k = length sizes then fst out = Inr () \<and> ev = [] \<and> dg = []
          else fst out = Inr () \<and> dg = [EvPrint (not_found_msg src)]
            \<or> fst out \<noteq> Inr () \<and> fst out \<noteq> Inl FileNotFoundError \<and> dg = [])
      \<and> w_trace (snd out) = w_trace w @ concat (map size_events (take k sizes)) @ ev @ dg
      \<and> w_open (snd out) = w_open w
      \<and> list_all (\<lambda>s. w_fs (snd out) (icon_path s) = Some (File (Encoded PNG (resized E img s))))
           (take k sizes)
      \<and> (\<forall>p. p \<notin> icon_path ` set (take (Suc k) sizes) \<longrightarrow> w_fs (snd out) p = w_fs w p))"

subsection \<open>Sample environments and worlds\<close>

text \<open>An environment without faults, a master image of 800 by 600 pixels stored as JPEG.\<close>

definition quiet_env :: env where
  "quiet_env =
     \<lparr>read_fault = (\<lambda>p. None), resize_fault = (\<lambda>img sz. None), lanczos = (\<lambda>img sz. []),
      open_fault = (\<lambda>p. None), write_fault = (\<lambda>f img p. None), leftover = (\<lambda>p. None),
      mkdir_fault = (\<lambda>p. None)\<rparr>"

definition master_icon :: image where
  "master_icon = \<lparr>img_size = (800, 600), img_data = [1, 2, 3]\<rparr>"

definition ready_world :: world where
  "ready_world =
     \<lparr>w_fs = [''GenerateIcons'' \<mapsto> Dir,
              ''GenerateIcons/master-icon.png'' \<mapsto> File (Encoded JPEG master_icon),
              ''public'' \<mapsto> Dir,
              ''public/icons'' \<mapsto> Dir],
      w_trace = [], w_open = {#}\<rparr>"

text \<open>Nothing on disk yet; and the two output directories only.\<close>

definition empty_world :: world where
  "empty_world = \<lparr>w_fs = Map.empty, w_trace = [], w_open = {#}\<rparr>"

definition dirs_world :: world where
  "dirs_world = \<lparr>w_fs = [''public'' \<mapsto> Dir, ''public/icons'' \<mapsto> Dir], w_trace = [], w_open = {#}\<rparr>"

text \<open>The master image is there, the output directory is not.\<close>

definition fresh_world :: world where
  "fresh_world =
     \<lparr>w_fs = [''GenerateIcons'' \<mapsto> Dir,
              ''GenerateIcons/master-icon.png'' \<mapsto> File (Encoded JPEG master_icon)],
      w_trace = [], w_open = {#}\<rparr>"

text \<open>The master file holds bytes that are no image.\<close>

definition corrupt_world :: world where
  "corrupt_world =
     \<lparr>w_fs = [''GenerateIcons'' \<mapsto> Dir,
              ''GenerateIcons/master-icon.png'' \<mapsto> File (Raw [0, 1, 2]),
              ''public'' \<mapsto> Dir,
              ''public/icons'' \<mapsto> Dir],
      w_trace = [], w_open = {#}\<rparr>"

text \<open>A regular file stands where the output directory should be.\<close>

definition file_in_the_way_world :: world where
  "file_in_the_way_world =
     \<lparr>w_fs = [''public'' \<mapsto> Dir, ''public/icons'' \<mapsto> File (Raw [])],
      w_trace = [], w_open = {#}\<rparr>"

text \<open>
  A regular file stands where the directory of the master image should be; and a regular
  file stands where the parent of the output directory should be.
\<close>

definition file_parent_world :: world where
  "file_parent_world =
     \<lparr>w_fs = [''GenerateIcons'' \<mapsto> File (Raw []), ''public'' \<mapsto> Dir, ''public/icons'' \<mapsto> Dir],
      w_trace = [], w_open = {#}\<rparr>"

definition file_at_public_world :: world where
  "file_at_public_world =
     \<lparr>w_fs = [''public'' \<mapsto> File (Raw [])], w_trace = [], w_open = {#}\<rparr>"

text \<open>
  The source file cannot be read; no file can be opened for writing; the disk is full when
  the fourth icon is written.
\<close>

definition locked_env :: env where
  "locked_env = quiet_env\<lparr>read_fault := (\<lambda>p. Some PermissionError)\<rparr>"

definition readonly_env :: env where
  "readonly_env = quiet_env\<lparr>open_fault := (\<lambda>p. Some PermissionError)\<rparr>"

definition disk_full_env :: env where
  "disk_full_env =
     quiet_env\<lparr>write_fault :=
       (\<lambda>f img p. if p = ''public/icons/icon-144x144.png'' then Some OSError else None)\<rparr>"


section \<open>Properties\<close>

subsection \<open>Decimal numerals\<close>

lemma digit_char_is_digit: "d < 10 \<Longrightarrow> is_digit (digit_char d)"
  unfolding digit_char_def is_digit_def by (rule nth_mem) simp

lemma is_digit_plain:
  "is_digit c \<Longrightarrow> c \<noteq> CHR ''/'' \<and> c \<noteq> CHR ''.'' \<and> c \<noteq> CHR ''x'' \<and> c \<noteq> CHR ''-''"
  by (auto simp: is_digit_def)

lemma str_nat_digits: "list_all is_digit (str_nat n)"
proof (induction n rule: str_nat.induct)
  case (1 n)
  show ?case
  proof (cases "n < 10")
    case True
    then show ?thesis by (subst str_nat.simps) (simp add: digit_char_is_digit)
  next
    case False
    with 1 show ?thesis by (subst str_nat.simps) (simp add: digit_char_is_digit)
  qed
qed

lemma str_nat_nonempty: "str_nat n \<noteq> []"
  by (subst str_nat.simps) simp

lemma str_nat_plain:
  assumes "c \<in> set (str_nat m)"
  shows "c \<noteq> CHR ''/'' \<and> c \<noteq> CHR ''.'' \<and> c \<noteq> CHR ''x'' \<and> c \<noteq> CHR ''-''"
proof -
  have "is_digit c"
    using str_nat_digits [of m] assms by (simp add: list_all_iff)
  then show ?thesis by (rule is_digit_plain)
qed

lemma str_int_plain:
  assumes "c \<in> set (str_int i)"
  shows "c \<noteq> CHR ''/'' \<and> c \<noteq> CHR ''.'' \<and> c \<noteq> CHR ''x''"
proof (cases "i < 0")
  case True
  with assms have "c = CHR ''-'' \<or> c \<in> set (str_nat (nat (- i)))"
    by (simp add: str_int_def)
  then show ?thesis using str_nat_plain [of c "nat (- i)"] by auto
next
  case False
  with assms have "c \<in> set (str_nat (nat i))"
    by (simp add: str_int_def)
  then show ?thesis using str_nat_plain [of c "nat i"] by simp
qed

lemma digit_val_char: "d < 10 \<Longrightarrow> digit_val (digit_char d) = d"
proof -
  assume "d < 10"
  then have "d = 0 \<or> d = 1 \<or> d = 2 \<or> d = 3 \<or> d = 4 \<or> d = 5 \<or> d = 6 \<or> d = 7 \<or> d = 8 \<or> d = 9"
    by arith
  then show ?thesis
    by (elim disjE) (simp_all add: digit_val_def digit_char_def)
qed

lemma nat_of_str_nat: "nat_of_str (str_nat n) = n"
proof (induction n rule: str_nat.induct)
  case (1 n)
  show ?case
  proof (cases "n < 10")
    case True
    then show ?thesis by (subst str_nat.simps) (simp add: nat_of_str_def digit_val_char)
  next
    case False
    with 1 [OF False] show ?thesis
      by (subst str_nat.simps) (simp add: nat_of_str_def digit_val_char)
  qed
qed

lemma str_nat_inj: "str_nat m = str_nat n \<Longrightarrow> m = n"
  by (metis nat_of_str_nat)

lemma str_nat_no_minus: "str_nat n \<noteq> CHR ''-'' # ds"
proof
  assume "str_nat n = CHR ''-'' # ds"
  then have "CHR ''-'' \<in> set (str_nat n)" by simp
  then show False using str_nat_plain by blast
qed

lemma str_int_inj:
  assumes "str_int i = str_int j"
  shows "i = j"
proof (cases "i < 0")
  case i: True
  show ?thesis
  proof (cases "j < 0")
    case True
    with i assms have "str_nat (nat (- i)) = str_nat (nat (- j))"
      by (simp add: str_int_def)
    then have "nat (- i) = nat (- j)" by (rule str_nat_inj)
    with i True show ?thesis by simp
  next
    case False
    with i assms have "str_nat (nat j) = CHR ''-'' # str_nat (nat (- i))"
      by (simp add: str_int_def)
    then show ?thesis using str_nat_no_minus by blast
  qed
next
  case i: False
  show ?thesis
  proof (cases "j < 0")
    case True
    with i assms have "str_nat (nat i) = CHR ''-'' # str_nat (nat (- j))"
      by (simp add: str_int_def)
    then show ?thesis using str_nat_no_minus by blast
  next
    case False
    with i assms have "str_nat (nat i) = str_nat (nat j)"
      by (simp add: str_int_def)
    then have "nat i = nat j" by (rule str_nat_inj)
    with i False show ?thesis by simp
  qed
qed

subsection \<open>The paths of the icons\<close>

lemma append_sep_eq:
  assumes "xs @ c # r = ys @ c # r'" and "c \<notin> set xs" and "c \<notin> set ys"
  shows "xs = ys"
proof -
  have "takeWhile (\<lambda>a. a \<noteq> c) (xs @ c # r) = xs"
    using assms(2) by (induction xs) auto
  moreover have "takeWhile (\<lambda>a. a \<noteq> c) (ys @ c # r') = ys"
    using assms(3) by (induction ys) auto
  ultimately show ?thesis using assms(1) by simp
qed

lemma icon_path_inj: "icon_path s = icon_path t \<Longrightarrow> s = t"
proof -
  assume "icon_path s = icon_path t"
  then have eq: "str_int s @ CHR ''x'' # (str_int s @ ''.png'') = str_int t @ CHR ''x'' # (str_int t @ ''.png'')"
    by (simp add: icon_path_def)
  have "CHR ''x'' \<notin> set (str_int s)" "CHR ''x'' \<notin> set (str_int t)"
    using str_int_plain by blast+
  with eq have "str_int s = str_int t"
    by (rule append_sep_eq)
  then show ?thesis by (rule str_int_inj)
qed

lemma path_split_join:
  assumes "list_all (\<lambda>c. \<not> is_sep c) name"
  shows "path_split (h @ CHR ''/'' # name) =
           (if \<not> list_all is_sep (h @ ''/'') then rstrip_sep (h @ ''/'') else h @ ''/'', name)"
proof -
  let ?p = "h @ CHR ''/'' # name"
  have "takeWhile (\<lambda>c. \<not> is_sep c) (rev name @ CHR ''/'' # rev h) = rev name"
    using assms by (simp add: takeWhile_tail is_sep_def list_all_iff)
  then have tail: "rev (takeWhile (\<lambda>c. \<not> is_sep c) (rev ?p)) = name"
    by simp
  have "length ?p - length name = length (h @ ''/'')" by simp
  then have head: "take (length ?p - length name) ?p = h @ ''/''"
    by (metis append.assoc append_Cons append_Nil append_eq_conv_conj)
  show ?thesis
    unfolding path_split_def Let_def tail head by simp
qed

lemma icon_path_name: "icon_path sz = output_dir @ CHR ''/'' # icon_name sz"
  by (simp add: icon_path_def icon_name_def)

lemma icon_name_plain: "list_all (\<lambda>c. \<not> is_sep c) (icon_name sz)"
  using str_int_plain [of _ sz] by (auto simp: icon_name_def list_all_iff is_sep_def)

lemma path_split_icon: "path_split (icon_path sz) = (output_dir, icon_name sz)"
  unfolding icon_path_name path_split_join [OF icon_name_plain]
  by (simp add: output_dir_def is_sep_def rstrip_sep_def)

lemma path_ext_icon: "path_ext (icon_path sz) = ''.png''"
proof -
  let ?stem = "''icon-'' @ str_int sz @ ''x'' @ str_int sz"
  have name: "icon_name sz = ?stem @ ''.png''" by (simp add: icon_name_def)
  have suffix: "rev (takeWhile (\<lambda>c. c \<noteq> CHR ''.'') (rev (icon_name sz))) = ''png''"
    by (simp add: icon_name_def)
  have "length (icon_name sz) - length ''png'' - 1 = length ?stem"
    by (simp add: icon_name_def)
  then have stem: "take (length (icon_name sz) - length ''png'' - 1) (icon_name sz) = ?stem"
    unfolding name by (metis append_eq_conv_conj)
  have dot: "CHR ''.'' \<in> set (icon_name sz)" by (simp add: icon_name_def)
  show ?thesis
    unfolding path_ext_def path_split_icon snd_conv Let_def suffix stem
    using dot by simp
qed

lemma format_of_icon_path: "format_of_path (icon_path sz) = Some PNG"
  by (simp add: format_of_path_def path_ext_icon lower_char_def extension_format_def)

lemma icon_path_not_dir: "icon_path sz \<noteq> output_dir"
  by (simp add: icon_path_def)

lemma icon_path_not_public: "icon_path sz \<noteq> ''public''"
  by (simp add: icon_path_def output_dir_def)

lemma ancestors_from_append:
  "ancestors_from pre (xs @ ys) = ancestors_from pre xs @ ancestors_from (pre @ xs) ys"
  by (induction xs arbitrary: pre) simp_all

lemma ancestors_from_plain:
  "list_all (\<lambda>c. \<not> is_sep c) xs \<Longrightarrow> ancestors_from pre xs = []"
  by (induction xs arbitrary: pre) simp_all

lemma ancestors_icon: "ancestors (icon_path sz) = [''public'', output_dir]"
proof -
  have "icon_path sz = ''public/icons/'' @ icon_name sz"
    by (simp add: icon_path_name output_dir_def)
  then have "ancestors (icon_path sz) =
      ancestors_from [] ''public/icons/'' @ ancestors_from ''public/icons/'' (icon_name sz)"
    by (simp only: ancestors_def ancestors_from_append append_Nil)
  also have "ancestors_from ''public/icons/'' (icon_name sz) = []"
    using icon_name_plain by (rule ancestors_from_plain)
  also have "ancestors_from [] ''public/icons/'' = [''public'', output_dir]"
    by (simp add: is_sep_def output_dir_def)
  finally show ?thesis by simp
qed

lemma parent_fault_icon:
  "parent_fault w (icon_path sz) =
     (case name_fault (icon_path sz) of
        Some e \<Rightarrow> Some e
      | None \<Rightarrow>
          (case walk_fault w [''public'', output_dir] of
             Some e \<Rightarrow> Some e
           | None \<Rightarrow> if long_name (icon_path sz) then Some OSError else None))"
  unfolding parent_fault_def ancestors_icon ..

lemma walk_fault_fs: "w_fs w' = w_fs w \<Longrightarrow> walk_fault w' ds = walk_fault w ds"
  by (induction ds) (simp_all split: option.splits node.splits)

lemma parent_fault_fs: "w_fs w' = w_fs w \<Longrightarrow> parent_fault w' p = parent_fault w p"
  unfolding parent_fault_def by (simp add: walk_fault_fs [of w' w] split: option.splits)

lemma parent_fault_trace: "parent_fault (w\<lparr>w_trace := t\<rparr>) p = parent_fault w p"
  by (rule parent_fault_fs) simp

lemma parent_fault_open: "parent_fault (w\<lparr>w_open := h\<rparr>) p = parent_fault w p"
  by (rule parent_fault_fs) simp

lemma parent_fault_icon_written:
  "parent_fault (w\<lparr>w_fs := (w_fs w)(icon_path s := x)\<rparr>) (icon_path t)
     = parent_fault w (icon_path t)"
proof -
  have "''public'' \<noteq> icon_path s" "output_dir \<noteq> icon_path s"
    using icon_path_not_public [of s] icon_path_not_dir [of s] by auto
  then have "walk_fault (w\<lparr>w_fs := (w_fs w)(icon_path s := x)\<rparr>) [''public'', output_dir]
      = walk_fault w [''public'', output_dir]"
    by (simp split: option.splits node.splits)
  then show ?thesis by (simp only: parent_fault_icon)
qed

lemma icon_paths_literal:
  "map icon_path sizes =
     [''public/icons/icon-72x72.png'', ''public/icons/icon-96x96.png'',
      ''public/icons/icon-128x128.png'', ''public/icons/icon-144x144.png'',
      ''public/icons/icon-152x152.png'', ''public/icons/icon-192x192.png'',
      ''public/icons/icon-384x384.png'', ''public/icons/icon-512x512.png'']"
  by (simp add: sizes_def icon_path_def str_int_def str_nat.simps digit_char_def output_dir_def)

lemma sizes_literal: "set sizes = {72, 96, 128, 144, 152, 192, 384, 512}"
  by (simp add: sizes_def)

subsection \<open>One pass of the loop\<close>

lemma icons_loop_Cons:
  "icons_loop E img (sz # rest) w =
     (case iteration E img sz w of
        (Inl e, w1) \<Rightarrow> (Inl e, w1)
      | (Inr u, w1) \<Rightarrow> icons_loop E img rest w1)"
  by (simp add: iteration_def split: prod.splits sum.splits)

lemma iteration_ok:
  "size_ok E img w sz \<Longrightarrow> iteration E img sz w = (Inr (), written E img sz w)"
  by (simp add: iteration_def size_ok_def resize_def save_def format_of_icon_path
      parent_fault_trace print_def written_def resized_def size_events_def)

lemma iteration_fault:
  assumes "\<not> size_ok E img w sz"
  shows "\<exists>e w1. iteration E img sz w = (Inl e, w1) \<and> w_open w1 = w_open w
           \<and> (w_trace w1 = w_trace w \<or> w_trace w1 = w_trace w @ [EvResize (sz, sz)])
           \<and> (\<forall>p. p \<noteq> icon_path sz \<longrightarrow> w_fs w1 p = w_fs w p)"
  using assms
  by (auto simp: iteration_def size_ok_def resize_def save_def format_of_icon_path
      parent_fault_trace resized_def split: option.splits)

lemma size_ok_written:
  assumes "size_ok E img w s"
  shows "size_ok E img (written E img s w) t = size_ok E img w t"
proof -
  let ?x = "Some (File (Encoded PNG (resized E img s)))"
  have "w_fs (written E img s w) = w_fs (w\<lparr>w_fs := (w_fs w)(icon_path s := ?x)\<rparr>)"
    by (simp add: written_def)
  then have "parent_fault (written E img s w) (icon_path t)
      = parent_fault (w\<lparr>w_fs := (w_fs w)(icon_path s := ?x)\<rparr>) (icon_path t)"
    by (rule parent_fault_fs)
  also have "\<dots> = parent_fault w (icon_path t)"
    by (rule parent_fault_icon_written)
  finally have same: "parent_fault (written E img s w) (icon_path t)
      = parent_fault w (icon_path t)" .
  have fs: "w_fs (written E img s w) (icon_path t) \<noteq> Some Dir
      \<longleftrightarrow> icon_path t = icon_path s \<or> w_fs w (icon_path t) \<noteq> Some Dir"
    by (simp add: written_def)
  from assms have "w_fs w (icon_path s) \<noteq> Some Dir" by (simp add: size_ok_def)
  with fs have "w_fs (written E img s w) (icon_path t) \<noteq> Some Dir
      \<longleftrightarrow> w_fs w (icon_path t) \<noteq> Some Dir"
    by (cases "icon_path t = icon_path s") simp_all
  then show ?thesis unfolding size_ok_def same by simp
qed

subsection \<open>The loop\<close>

lemma icons_loop_run: "\<exists>k rest_ev. loop_post E img szs w (icons_loop E img szs w) k rest_ev"
proof (induction szs arbitrary: w)
  case Nil
  have "loop_post E img [] w (icons_loop E img [] w) 0 []"
    by (simp add: loop_post_def)
  then show ?case by blast
next
  case (Cons s rest)
  show ?case
  proof (cases "size_ok E img w s")
    case False
    from iteration_fault [OF False] obtain e w1 where
      it: "iteration E img s w = (Inl e, w1)" and op: "w_open w1 = w_open w"
      and tr: "w_trace w1 = w_trace w \<or> w_trace w1 = w_trace w @ [EvResize (s, s)]"
      and fr: "\<forall>p. p \<noteq> icon_path s \<longrightarrow> w_fs w1 p = w_fs w p"
      by blast
    have run: "icons_loop E img (s # rest) w = (Inl e, w1)"
      by (subst icons_loop_Cons) (simp add: it)
    from tr obtain rest_ev where rest_ev: "rest_ev = [] \<or> rest_ev = [EvResize (s, s)]" "w_trace w1 = w_trace w @ rest_ev"
      by auto
    have "loop_post E img (s # rest) w (icons_loop E img (s # rest) w) 0 rest_ev"
      unfolding run loop_post_def using False rest_ev op fr by auto
    then show ?thesis by blast
  next
    case True
    let ?w1 = "written E img s w"
    have run: "icons_loop E img (s # rest) w = icons_loop E img rest ?w1"
      by (subst icons_loop_Cons) (simp add: iteration_ok [OF True])
    from Cons.IH [of ?w1] obtain k rest_ev where
      post: "loop_post E img rest ?w1 (icons_loop E img rest ?w1) k rest_ev"
      by blast
    let ?out = "icons_loop E img rest ?w1"
    have same: "size_ok E img ?w1 = size_ok E img w"
      using size_ok_written [OF True] by (intro ext)
    from post have k: "k \<le> length rest"
      and tk: "take k rest = takeWhile (size_ok E img w) rest"
      and res: "if fst ?out = Inr () then k = length rest \<and> rest_ev = []
                else k < length rest \<and> (rest_ev = [] \<or> rest_ev = [EvResize (rest ! k, rest ! k)])"
      and tr: "w_trace (snd ?out) = w_trace ?w1 @ concat (map size_events (take k rest)) @ rest_ev"
      and op: "w_open (snd ?out) = w_open ?w1"
      and files: "list_all (\<lambda>t. w_fs (snd ?out) (icon_path t)
                    = Some (File (Encoded PNG (resized E img t)))) (take k rest)"
      and frame: "\<forall>p. p \<notin> icon_path ` set (take (Suc k) rest) \<longrightarrow> w_fs (snd ?out) p = w_fs ?w1 p"
      unfolding loop_post_def same by blast+
    have s_file: "w_fs (snd ?out) (icon_path s) = Some (File (Encoded PNG (resized E img s)))"
    proof (cases "s \<in> set (take k rest)")
      case True
      with files show ?thesis by (simp add: list_all_iff)
    next
      case notin: False
      have "s \<notin> set (take (Suc k) rest)"
      proof (cases "k < length rest")
        case True
        with res have "fst ?out \<noteq> Inr ()" by (auto split: if_splits)
        have "takeWhile (size_ok E img w) rest = take k rest" using tk by simp
        then have "length (takeWhile (size_ok E img w) rest) = k" using k by simp
        with True have "\<not> size_ok E img w (rest ! k)"
          using nth_length_takeWhile [of "size_ok E img w" rest] by simp
        with \<open>size_ok E img w s\<close> have "s \<noteq> rest ! k" by auto
        with notin True show ?thesis by (simp add: take_Suc_conv_app_nth)
      next
        case False
        with notin show ?thesis by simp
      qed
      then have "icon_path s \<notin> icon_path ` set (take (Suc k) rest)"
        using icon_path_inj by blast
      with frame have "w_fs (snd ?out) (icon_path s) = w_fs ?w1 (icon_path s)" by blast
      then show ?thesis by (simp add: written_def)
    qed
    have "loop_post E img (s # rest) w (icons_loop E img (s # rest) w) (Suc k) rest_ev"
      unfolding run loop_post_def
    proof (intro conjI)
      show "Suc k \<le> length (s # rest)" using k by simp
      show "take (Suc k) (s # rest) = takeWhile (size_ok E img w) (s # rest)"
        using True tk by simp
      show "if fst ?out = Inr () then Suc k = length (s # rest) \<and> rest_ev = []
            else Suc k < length (s # rest)
              \<and> (rest_ev = [] \<or> rest_ev = [EvResize ((s # rest) ! Suc k, (s # rest) ! Suc k)])"
        using res by (auto split: if_splits)
      show "w_trace (snd ?out)
            = w_trace w @ concat (map size_events (take (Suc k) (s # rest))) @ rest_ev"
        using tr by (simp add: written_def)
      show "w_open (snd ?out) = w_open w" using op by (simp add: written_def)
      show "list_all (\<lambda>t. w_fs (snd ?out) (icon_path t)
              = Some (File (Encoded PNG (resized E img t)))) (take (Suc k) (s # rest))"
        using files s_file by simp
      show "\<forall>p. p \<notin> icon_path ` set (take (Suc (Suc k)) (s # rest))
              \<longrightarrow> w_fs (snd ?out) p = w_fs w p"
        using frame by (auto simp: written_def)
    qed
    then show ?thesis by blast
  qed
qed

subsection \<open>A call of generate_icons\<close>

lemma image_open_Inr:
  assumes "image_open E src w = (Inr img, wo)"
  shows "wo = w\<lparr>w_open := add_mset src (w_open w)\<rparr>"
    and "\<exists>f. w_fs w src = Some (File (Encoded f img))"
    and "read_fault E src = None"
    and "parent_fault w src = None"
  using assms
  by (auto simp: image_open_def split: option.splits node.splits content.splits)

lemma image_open_Inl:
  assumes "image_open E src w = (Inl e, wo)"
  shows "wo = w"
  using assms
  by (auto simp: image_open_def split: option.splits node.splits content.splits)


lemma walk_fault_None:
  "walk_fault w ds = None \<longleftrightarrow> list_all (\<lambda>d. \<not> long_name d \<and> w_fs w d = Some Dir) ds"
  by (induction ds) (simp_all split: option.splits node.splits)

lemma image_open_decodable:
  assumes "w_fs w src = Some (File (Encoded f img))"
  shows "image_open E src w =
           (case source_fault E w src of Some e \<Rightarrow> (Inl e, w)
            | None \<Rightarrow> (Inr img, w\<lparr>w_open := add_mset src (w_open w)\<rparr>))"
  using assms by (simp add: image_open_def source_fault_def split: option.splits)

lemma generate_icons_not_opened:
  assumes "image_open E src w = (Inl e, wo)"
  shows "generate_icons E src w =
           (if e = FileNotFoundError then (Inr (), print (not_found_msg src) w) else (Inl e, w))"
  using assms image_open_Inl [OF assms]
  by (simp add: generate_icons_def with_image_def)

lemma size_ok_opened:
  "size_ok E img (w\<lparr>w_open := h\<rparr>) = size_ok E img w"
  by (intro ext) (simp add: size_ok_def parent_fault_open)

lemma generate_icons_opened:
  assumes "image_open E src w = (Inr img, wo)"
  shows "\<exists>k ev dg. run_post E src img w (generate_icons E src w) k ev dg"
proof -
  have wo: "wo = w\<lparr>w_open := add_mset src (w_open w)\<rparr>"
    using image_open_Inr(1) [OF assms] .
  obtain r w2 where loop: "icons_loop E img sizes wo = (r, w2)"
    by (cases "icons_loop E img sizes wo")
  have wo_fs: "w_fs wo = w_fs w" and wo_tr: "w_trace wo = w_trace w"
    and wo_op: "w_open wo = add_mset src (w_open w)"
    and wo_ok: "size_ok E img wo = size_ok E img w"
    unfolding wo size_ok_opened by simp_all
  from icons_loop_run [of E img sizes wo] obtain k ev where
    "loop_post E img sizes wo (r, w2) k ev"
    unfolding loop by blast
  then have k: "k \<le> length sizes"
    and tk: "take k sizes = takeWhile (size_ok E img w) sizes"
    and res: "if r = Inr () then k = length sizes \<and> ev = []
              else k < length sizes \<and> (ev = [] \<or> ev = [EvResize (sizes ! k, sizes ! k)])"
    and tr: "w_trace w2 = w_trace w @ concat (map size_events (take k sizes)) @ ev"
    and op: "w_open w2 = add_mset src (w_open w)"
    and files: "list_all (\<lambda>s. w_fs w2 (icon_path s)
                  = Some (File (Encoded PNG (resized E img s)))) (take k sizes)"
    and frame: "\<forall>p. p \<notin> icon_path ` set (take (Suc k) sizes) \<longrightarrow> w_fs w2 p = w_fs w p"
    unfolding loop_post_def fst_conv snd_conv wo_fs wo_tr wo_op wo_ok by blast+
  have wi: "with_image E src w = (r, image_close src w2)"
    by (simp add: with_image_def assms loop)
  let ?w3 = "image_close src w2"
  have w3: "w_fs ?w3 = w_fs w2" "w_trace ?w3 = w_trace w2" "w_open ?w3 = w_open w"
    using op by (simp_all add: image_close_def)
  show ?thesis
  proof (cases r)
    case (Inr u)
    then have out: "generate_icons E src w = (Inr (), ?w3)"
      by (simp add: generate_icons_def wi)
    have "run_post E src img w (generate_icons E src w) k [] []"
      unfolding out run_post_def using k tk res tr files frame w3 Inr by simp
    then show ?thesis by blast
  next
    case (Inl e)
    with res have kl: "k < length sizes" and ev: "ev = [] \<or> ev = [EvResize (sizes ! k, sizes ! k)]"
      by simp_all
    show ?thesis
    proof (cases "e = FileNotFoundError")
      case True
      then have out: "generate_icons E src w = (Inr (), print (not_found_msg src) ?w3)"
        by (simp add: generate_icons_def wi Inl)
      have "run_post E src img w (generate_icons E src w) k ev [EvPrint (not_found_msg src)]"
        unfolding out run_post_def using k kl ev tk tr files frame w3
        by (simp add: print_def)
      then show ?thesis by blast
    next
      case False
      then have out: "generate_icons E src w = (Inl e, ?w3)"
        by (simp add: generate_icons_def wi Inl)
      have "run_post E src img w (generate_icons E src w) k ev []"
        unfolding out run_post_def using k kl ev tk tr files frame w3 False
        by simp
      then show ?thesis by blast
    qed
  qed
qed

lemma new_events_append: "w_trace w' = w_trace w @ xs \<Longrightarrow> new_events w w' = xs"
  by (simp add: new_events_def)

lemma not_found_not_size_event: "EvPrint (not_found_msg src) \<notin> set (size_events s)"
  by (simp add: size_events_def not_found_msg_def created_msg_def check_mark_def cross_mark_def)

lemma not_found_not_in_sizes: "EvPrint (not_found_msg src) \<notin> set (concat (map size_events szs))"
  using not_found_not_size_event by auto

lemma run_post_complete:
  assumes "run_post E src img w out k ev dg"
  shows "successful src w out \<longleftrightarrow> k = length sizes"
proof
  assume ok: "successful src w out"
  show "k = length sizes"
  proof (rule ccontr)
    assume "k \<noteq> length sizes"
    with assms have alt: "fst out = Inr () \<and> dg = [EvPrint (not_found_msg src)] \<or> fst out \<noteq> Inr ()"
      and tr: "w_trace (snd out) = w_trace w @ concat (map size_events (take k sizes)) @ ev @ dg"
      unfolding run_post_def by auto
    from ok have "fst out = Inr ()" by (simp add: successful_def)
    with alt have "dg = [EvPrint (not_found_msg src)]" by blast
    with new_events_append [OF tr] have "EvPrint (not_found_msg src) \<in> set (new_events w (snd out))"
      by simp
    with ok show False by (simp add: successful_def)
  qed
next
  assume "k = length sizes"
  with assms have "fst out = Inr ()" "ev = []" "dg = []"
    and tr: "w_trace (snd out) = w_trace w @ concat (map size_events (take k sizes)) @ ev @ dg"
    unfolding run_post_def by auto
  with new_events_append [OF tr] not_found_not_in_sizes [of src "take k sizes"]
  show "successful src w out" by (simp add: successful_def)
qed

lemma run_post_all_ok:
  assumes "run_post E src img w out k ev dg"
  shows "k = length sizes \<longleftrightarrow> list_all (size_ok E img w) sizes"
proof -
  from assms have k: "k \<le> length sizes" and tk: "take k sizes = takeWhile (size_ok E img w) sizes"
    unfolding run_post_def by blast+
  have "k = length sizes \<longleftrightarrow> take k sizes = sizes"
    using k by (metis length_take min.absorb2 take_all order_refl)
  also have "\<dots> \<longleftrightarrow> list_all (size_ok E img w) sizes"
    unfolding tk by (simp add: takeWhile_eq_all_conv list_all_iff)
  finally show ?thesis .
qed

lemma not_opened_unsuccessful:
  assumes "image_open E src w = (Inl e, wo)"
  shows "\<not> successful src w (generate_icons E src w)"
  unfolding generate_icons_not_opened [OF assms]
  by (simp add: successful_def new_events_def print_def)

lemma successful_opened:
  assumes "w_fs w src = Some (File (Encoded f img))"
    and "successful src w (generate_icons E src w)"
  shows "image_open E src w = (Inr img, w\<lparr>w_open := add_mset src (w_open w)\<rparr>)"
proof (cases "source_fault E w src")
  case None
  with assms(1) show ?thesis by (simp add: image_open_decodable)
next
  case (Some e)
  with assms(1) have "image_open E src w = (Inl e, w)" by (simp add: image_open_decodable)
  from not_opened_unsuccessful [OF this] assms(2) show ?thesis by blast
qed

lemma successful_iff:
  assumes "w_fs w src = Some (File (Encoded f img))"
  shows "successful src w (generate_icons E src w)
           \<longleftrightarrow> source_fault E w src = None \<and> list_all (size_ok E img w) sizes"
proof (cases "source_fault E w src")
  case (Some e)
  with assms have "image_open E src w = (Inl e, w)" by (simp add: image_open_decodable)
  from not_opened_unsuccessful [OF this] Some show ?thesis by simp
next
  case None
  with assms have "image_open E src w = (Inr img, w\<lparr>w_open := add_mset src (w_open w)\<rparr>)"
    by (simp add: image_open_decodable)
  from generate_icons_opened [OF this] obtain k ev dg where
    "run_post E src img w (generate_icons E src w) k ev dg" by blast
  from run_post_complete [OF this] run_post_all_ok [OF this] None show ?thesis by simp
qed

lemma successful_run:
  assumes "w_fs w src = Some (File (Encoded f img))"
    and "successful src w (generate_icons E src w)"
  shows "run_post E src img w (generate_icons E src w) (length sizes) [] []"
proof -
  from generate_icons_opened [OF successful_opened [OF assms]] obtain k ev dg where
    post: "run_post E src img w (generate_icons E src w) k ev dg" by blast
  with run_post_complete [OF post] assms(2) have k: "k = length sizes" by simp
  with post have "ev = []" "dg = []" unfolding run_post_def by auto
  with post k show ?thesis by simp
qed


lemma generate_icons_cases [case_names not_opened opened]:
  obtains e where "image_open E src w = (Inl e, w)"
      and "generate_icons E src w =
             (if e = FileNotFoundError then (Inr (), print (not_found_msg src) w) else (Inl e, w))"
  | img k ev dg where "image_open E src w = (Inr img, w\<lparr>w_open := add_mset src (w_open w)\<rparr>)"
      and "run_post E src img w (generate_icons E src w) k ev dg"
proof (cases "image_open E src w")
  case (Pair r wo)
  show ?thesis
  proof (cases r)
    case (Inl e)
    with Pair have op: "image_open E src w = (Inl e, wo)" by simp
    from image_open_Inl [OF op] op generate_icons_not_opened [OF op] that(1)
    show ?thesis by simp
  next
    case (Inr img)
    with Pair have op: "image_open E src w = (Inr img, wo)" by simp
    from generate_icons_opened [OF op] obtain k ev dg where
      "run_post E src img w (generate_icons E src w) k ev dg" by blast
    with image_open_Inr(1) [OF op] op that(2) show ?thesis by simp
  qed
qed

lemma generate_icons_frame:
  assumes "p \<notin> icon_path ` set sizes"
  shows "w_fs (snd (generate_icons E src w)) p = w_fs w p"
proof (cases rule: generate_icons_cases [of E src w])
  case (not_opened e)
  then show ?thesis by (simp add: print_def)
next
  case (opened img k ev dg)
  have "set (take (Suc k) sizes) \<subseteq> set sizes" by (rule set_take_subset)
  with assms have "p \<notin> icon_path ` set (take (Suc k) sizes)" by blast
  with opened(2) show ?thesis unfolding run_post_def by blast
qed

lemma generate_icons_handles: "w_open (snd (generate_icons E src w)) = w_open w"
proof (cases rule: generate_icons_cases [of E src w])
  case (not_opened e)
  then show ?thesis by (simp add: print_def)
next
  case (opened img k ev dg)
  then show ?thesis unfolding run_post_def by blast
qed

lemma icons_loop_handles: "w_open (snd (icons_loop E img szs w)) = w_open w"
  using icons_loop_run [of E img szs w] unfolding loop_post_def by blast

lemma output_dir_not_icon: "output_dir \<notin> icon_path ` S"
proof
  assume "output_dir \<in> icon_path ` S"
  then obtain s where "output_dir = icon_path s" by (rule imageE)
  then have "icon_path s = output_dir" by (rule sym)
  with icon_path_not_dir show False by blast
qed

subsection \<open>The trace\<close>

lemma size_events_eq:
  "size_events = (\<lambda>sz. [EvResize (sz, sz), EvSave (icon_path sz), EvPrint (created_msg sz)])"
  by (intro ext) (simp add: size_events_def)

lemma printed_append: "printed (xs @ ys) = printed xs @ printed ys"
  by (induction xs rule: printed.induct) simp_all

lemma printed_size_events: "printed (concat (map size_events szs)) = map created_msg szs"
  by (induction szs) (simp_all add: size_events_def)

lemma saved_in_size_events:
  "EvSave p \<in> set (concat (map size_events szs)) \<longleftrightarrow> p \<in> icon_path ` set szs"
  by (induction szs) (auto simp: size_events_def)

subsection \<open>Startup\<close>

lemma makedirs_parts_output_dir: "makedirs_parts output_dir = (''public'', ''icons'')"
  by (simp add: makedirs_parts_def path_split_def output_dir_def is_sep_def rstrip_sep_def Let_def)

lemma makedirs_parts_public: "makedirs_parts ''public'' = ([], ''public'')"
  by (simp add: makedirs_parts_def path_split_def is_sep_def Let_def)

lemma makedirs_public: "makedirs E ''public'' w = mkdir E ''public'' w"
  by (subst makedirs.simps) (simp add: makedirs_parts_public)

lemma makedirs_output_dir:
  "makedirs E output_dir w =
     (if \<not> path_exists w ''public''
      then (case mkdir E ''public'' w of
              (Inl e, w1) \<Rightarrow> if e = FileExistsError then mkdir E output_dir w1 else (Inl e, w1)
            | (Inr u, w1) \<Rightarrow> mkdir E output_dir w1)
      else mkdir E output_dir w)"
  by (subst makedirs.simps)
    (simp add: makedirs_parts_output_dir makedirs_public split: prod.splits sum.splits)

lemma mkdir_Inr:
  assumes "mkdir E p w = (Inr u, w1)"
  shows "w1 = w\<lparr>w_fs := (w_fs w)(p \<mapsto> Dir)\<rparr>" and "parent_fault w p = None"
    and "\<not> path_exists w p"
  using assms by (auto simp: mkdir_def split: if_splits option.splits)

lemma walk_fault_kinds:
  "walk_fault w ds = None \<or> walk_fault w ds = Some FileNotFoundError
   \<or> walk_fault w ds = Some NotADirectoryError \<or> walk_fault w ds = Some OSError"
  by (induction ds) (simp_all split: option.splits node.splits)

lemma parent_fault_kinds:
  "parent_fault w p = None \<or> parent_fault w p = Some FileNotFoundError
   \<or> parent_fault w p = Some NotADirectoryError \<or> parent_fault w p = Some ValueError
   \<or> parent_fault w p = Some OSError"
  using walk_fault_kinds [of w "ancestors p"]
  by (auto simp: parent_fault_def name_fault_def split: option.splits)

lemma mkdir_Inl:
  assumes "mkdir E p w = (Inl e, w1)"
  shows "w1 = w"
    and "e = FileExistsError \<longrightarrow> path_exists w p \<or> mkdir_fault E p = Some FileExistsError"
  using assms parent_fault_kinds [of w p]
  by (auto simp: mkdir_def split: if_splits option.splits)

lemma name_fault_public: "name_fault ''public'' = None"
  by (simp add: name_fault_def is_sep_def)

lemma name_fault_output_dir: "name_fault output_dir = None"
  by (simp add: name_fault_def output_dir_def is_sep_def)

lemma parent_fault_public: "parent_fault w ''public'' = None"
  by (simp add: parent_fault_def name_fault_public ancestors_def long_name_def is_sep_def)

lemma parent_fault_output_dir:
  "parent_fault w output_dir =
     (case w_fs w ''public'' of None \<Rightarrow> Some FileNotFoundError
      | Some (File c) \<Rightarrow> Some NotADirectoryError | Some Dir \<Rightarrow> None)"
  by (simp add: parent_fault_def name_fault_output_dir)
    (simp add: ancestors_def long_name_def output_dir_def is_sep_def
       split: option.splits node.splits)

lemma parent_of_output_dir:
  "parent_fault w output_dir = None \<Longrightarrow> w_fs w ''public'' = Some Dir"
  unfolding parent_fault_output_dir by (simp split: option.splits node.splits)

lemma startup_created:
  assumes "startup E w = (Inr (), w1)" and "\<not> path_exists w output_dir"
  shows "w_fs w1 ''public'' = Some Dir \<and> w_fs w1 output_dir = Some Dir
         \<and> (\<forall>p. p \<noteq> ''public'' \<and> p \<noteq> output_dir \<longrightarrow> w_fs w1 p = w_fs w p)"
proof -
  from assms have md: "makedirs E output_dir w = (Inr (), w1)"
    by (simp add: startup_def)
  show ?thesis
  proof (cases "path_exists w ''public''")
    case True
    with md have mk: "mkdir E output_dir w = (Inr (), w1)"
      by (simp add: makedirs_output_dir)
    from mkdir_Inr(1) [OF mk] parent_of_output_dir [OF mkdir_Inr(2) [OF mk]] show ?thesis
      by (simp add: output_dir_def)
  next
    case False
    obtain r wp where mp: "mkdir E ''public'' w = (r, wp)"
      by (cases "mkdir E ''public'' w")
    show ?thesis
    proof (cases r)
      case (Inl e)
      with mp have mp': "mkdir E ''public'' w = (Inl e, wp)" by simp
      from mkdir_Inl(1) [OF mp'] have wp: "wp = w" .
      from md False mp' have mk: "mkdir E output_dir w = (Inr (), w1)"
        by (simp add: makedirs_output_dir wp split: if_splits)
      from parent_of_output_dir [OF mkdir_Inr(2) [OF mk]] False show ?thesis
        by (simp add: path_exists_def)
    next
      case (Inr u)
      with mp have mp': "mkdir E ''public'' w = (Inr u, wp)" by simp
      from mkdir_Inr(1) [OF mp'] have wp: "wp = w\<lparr>w_fs := (w_fs w)(''public'' \<mapsto> Dir)\<rparr>" .
      from md False mp' have mk: "mkdir E output_dir wp = (Inr (), w1)"
        by (simp add: makedirs_output_dir)
      from mkdir_Inr(1) [OF mk] show ?thesis
        by (simp add: wp output_dir_def)
    qed
  qed
qed

lemma startup_succeeds:
  assumes "mkdir_fault E ''public'' = None" and "mkdir_fault E output_dir = None"
    and "\<forall>c. w_fs w ''public'' \<noteq> Some (File c)"
  shows "fst (startup E w) = Inr ()"
proof (cases "path_exists w output_dir")
  case True
  then show ?thesis by (simp add: startup_def)
next
  case absent: False
  have leaf: "fst (mkdir E output_dir w0) = Inr ()"
    if "\<not> path_exists w0 output_dir" and "w_fs w0 ''public'' = Some Dir" for w0
    using that assms(2) by (simp add: mkdir_def parent_fault_output_dir)
  show ?thesis
  proof (cases "path_exists w ''public''")
    case True
    with assms(3) have "w_fs w ''public'' = Some Dir"
      by (cases "w_fs w ''public''") (auto simp: path_exists_def intro: node.exhaust)
    from leaf [OF absent this] absent True show ?thesis
      by (simp add: startup_def makedirs_output_dir)
  next
    case False
    then have mp: "mkdir E ''public'' w = (Inr (), w\<lparr>w_fs := (w_fs w)(''public'' \<mapsto> Dir)\<rparr>)"
      using assms(1) by (simp add: mkdir_def parent_fault_public)
    let ?wp = "w\<lparr>w_fs := (w_fs w)(''public'' \<mapsto> Dir)\<rparr>"
    have "\<not> path_exists ?wp output_dir" using absent
      by (simp add: path_exists_def output_dir_def)
    moreover have "w_fs ?wp ''public'' = Some Dir" by simp
    ultimately have "fst (mkdir E output_dir ?wp) = Inr ()" by (rule leaf)
    with absent False mp show ?thesis
      by (simp add: startup_def makedirs_output_dir)
  qed
qed

subsection \<open>The sample worlds\<close>

lemmas run_defs =
  generate_icons_def with_image_def image_open_def sizes_def resize_def save_def
  print_def image_close_def quiet_env_def ready_world_def disk_full_env_def master_icon_def
  readonly_env_def locked_env_def corrupt_world_def dirs_world_def file_parent_world_def
  icon_path_def str_int_def str_nat.simps digit_char_def output_dir_def
  format_of_path_def path_ext_def path_split_def Let_def is_sep_def lower_char_def
  extension_format_def parent_fault_def name_fault_def long_name_def ancestors_def rstrip_sep_def

lemmas startup_defs =
  startup_def makedirs_output_dir [unfolded output_dir_def] mkdir_def parent_fault_def
  name_fault_def long_name_def ancestors_def path_split_def path_exists_def
  output_dir_def is_sep_def rstrip_sep_def Let_def quiet_env_def

lemma startup_empty_world: "startup quiet_env empty_world = (Inr (), dirs_world)"
  by (simp add: startup_defs empty_world_def dirs_world_def)

lemma startup_fresh_world: "startup quiet_env fresh_world = (Inr (), ready_world)"
  by (simp add: startup_defs fresh_world_def ready_world_def)

lemma ready_world_source:
  "w_fs ready_world ''GenerateIcons/master-icon.png'' = Some (File (Encoded JPEG master_icon))"
  by (simp add: ready_world_def)

lemma ready_world_ok: "list_all (size_ok quiet_env master_icon ready_world) sizes"
proof -
  have "list_all (\<lambda>p. w_fs ready_world p \<noteq> Some Dir) (map icon_path sizes)"
    unfolding icon_paths_literal by (simp add: ready_world_def)
  moreover have "list_all (\<lambda>p. parent_fault ready_world p = None) (map icon_path sizes)"
    unfolding icon_paths_literal
    by (simp add: parent_fault_def name_fault_def long_name_def ancestors_def is_sep_def ready_world_def)
  moreover have "list_all (\<lambda>s. 0 < s) sizes" by (simp add: sizes_def)
  ultimately show ?thesis
    by (simp add: size_ok_def quiet_env_def list_all_iff)
qed

lemma ready_world_source_fault:
  "source_fault quiet_env ready_world ''GenerateIcons/master-icon.png'' = None"
  by (simp add: source_fault_def parent_fault_def name_fault_def long_name_def ancestors_def is_sep_def
      ready_world_def quiet_env_def)

lemma ready_world_successful:
  "successful ''GenerateIcons/master-icon.png'' ready_world
     (generate_icons quiet_env ''GenerateIcons/master-icon.png'' ready_world)"
  by (simp add: successful_iff [OF ready_world_source] ready_world_ok ready_world_source_fault)

lemma source_not_icon: "''GenerateIcons/master-icon.png'' \<notin> icon_path ` set sizes"
proof -
  have "icon_path ` set sizes = set (map icon_path sizes)" by simp
  then show ?thesis unfolding icon_paths_literal by simp
qed

lemma startup_then_run:
  assumes "startup E w = (Inr (), w1)" and "\<forall>c. w_fs w output_dir \<noteq> Some (File c)"
  shows "script E w = generate_icons E source_file w1
         \<and> w_fs w1 output_dir = Some Dir
         \<and> w_fs (snd (generate_icons E source_path w1)) output_dir = Some Dir
         \<and> w_fs (snd (script E w)) output_dir = Some Dir
         \<and> (\<not> path_exists w output_dir \<longrightarrow> w_fs w1 ''public'' = Some Dir)"
proof -
  have run: "script E w = generate_icons E source_file w1"
    by (simp add: script_def assms(1))
  have keep: "w_fs (snd (generate_icons E src w1)) output_dir = w_fs w1 output_dir" for src
    using output_dir_not_icon by (rule generate_icons_frame)
  have dir: "w_fs w1 output_dir = Some Dir"
  proof (cases "path_exists w output_dir")
    case True
    with assms(1) have "w1 = w" by (simp add: startup_def)
    moreover from True obtain n where "w_fs w output_dir = Some n"
      by (auto simp: path_exists_def)
    ultimately show ?thesis using assms(2) by (cases n) simp_all
  next
    case False
    from startup_created [OF assms(1) False] show ?thesis by simp
  qed
  have "w_fs w1 ''public'' = Some Dir" if "\<not> path_exists w output_dir"
    using startup_created [OF assms(1) that] by simp
  with run dir show ?thesis by (simp add: keep)
qed

section \<open>The claims\<close>

text \<open>
  Claim C1. For every size \<open>s\<close> of the list 72, 96, 128, 144, 152, 192, 384, 512, a successful
  run of \<^verbatim>\<open>generate_icons\<close> on a decodable source image leaves, in the output directory, the
  file \<^verbatim>\<open>icon-<s>x<s>.png\<close>, a PNG encoding of an image of exactly \<open>s\<close> by \<open>s\<close> pixels: the
  Lanczos resampling of the whole source image to that size, whatever the dimensions of the
  source are.
\<close>

theorem icons_written_square:
  assumes "w_fs w source_path = Some (File (Encoded f img))"
    and "successful source_path w (generate_icons E source_path w)"
    and "sz \<in> {72, 96, 128, 144, 152, 192, 384, 512}"
  shows "w_fs (snd (generate_icons E source_path w))
           (''public/icons/icon-'' @ str_int sz @ ''x'' @ str_int sz @ ''.png'')
         = Some (File (Encoded PNG \<lparr>img_size = (sz, sz), img_data = lanczos E img (sz, sz)\<rparr>))"
proof -
  from successful_run [OF assms(1,2)]
  have "list_all (\<lambda>s. w_fs (snd (generate_icons E source_path w)) (icon_path s)
          = Some (File (Encoded PNG (resized E img s)))) sizes"
    unfolding run_post_def by simp
  moreover have "sz \<in> set sizes" using assms(3) by (simp only: sizes_literal)
  ultimately have "w_fs (snd (generate_icons E source_path w)) (icon_path sz)
          = Some (File (Encoded PNG (resized E img sz)))"
    by (simp add: list_all_iff)
  then show ?thesis by (simp add: icon_path_def output_dir_def resized_def)
qed

theorem icons_written_square_witness:
  "w_fs ready_world ''GenerateIcons/master-icon.png'' = Some (File (Encoded JPEG master_icon))
   \<and> successful ''GenerateIcons/master-icon.png'' ready_world
       (generate_icons quiet_env ''GenerateIcons/master-icon.png'' ready_world)
   \<and> w_fs (snd (generate_icons quiet_env ''GenerateIcons/master-icon.png'' ready_world))
        ''public/icons/icon-72x72.png''
      = Some (File (Encoded PNG \<lparr>img_size = (72, 72), img_data = []\<rparr>))
   \<and> w_fs (snd (generate_icons quiet_env ''GenerateIcons/master-icon.png'' ready_world))
        ''public/icons/icon-512x512.png''
      = Some (File (Encoded PNG \<lparr>img_size = (512, 512), img_data = []\<rparr>))"
proof -
  let ?src = "''GenerateIcons/master-icon.png''"
  have src: "w_fs ready_world ?src = Some (File (Encoded JPEG master_icon))"
    by (simp add: ready_world_def)
  have ok: "successful ?src ready_world (generate_icons quiet_env ?src ready_world)"
    by (rule ready_world_successful)
  have "(72::int) \<in> {72, 96, 128, 144, 152, 192, 384, 512}"
    and "(512::int) \<in> {72, 96, 128, 144, 152, 192, 384, 512}" by simp_all
  from icons_written_square [OF src ok this(1)] icons_written_square [OF src ok this(2)] src ok
  show ?thesis
    by (simp add: str_int_def str_nat.simps digit_char_def quiet_env_def)
qed







text \<open>
  Claim C4, as stated, has the output directory created on every run and in place after
  every run. It fails when a regular file stands at the output path: the startup finds that
  the path exists and creates nothing, the script ends normally, and the path still names
  that regular file. It fails too when a regular file stands where the parent of the output
  directory belongs: the creation raises \<^verbatim>\<open>NotADirectoryError\<close>, the script ends there, and no
  output directory exists.
\<close>

theorem no_output_directory_after_run:
  "fst (script quiet_env file_in_the_way_world) = Inr ()
   \<and> w_fs (snd (script quiet_env file_in_the_way_world)) output_dir = Some (File (Raw []))
   \<and> script quiet_env file_at_public_world = (Inl NotADirectoryError, file_at_public_world)
   \<and> w_fs file_at_public_world output_dir = None"
  by (simp add: script_def startup_defs generate_icons_def with_image_def image_open_def
      print_def source_file_def file_in_the_way_world_def file_at_public_world_def)

text \<open>
  Claim C4, amended. The creation of the output directory, with its missing parent, is
  attempted when the script starts, before the source image is opened and whatever becomes
  of it, unless the output path exists already. When the startup completes and no regular
  file stands at the output path, the rest of the run is \<^verbatim>\<open>generate_icons\<close> in a world where
  the output directory exists; it is still there, a directory, after \<^verbatim>\<open>generate_icons\<close> on
  any source path, found or not, and at the end of the run; and when the path did not exist
  before, its parent is a directory as well. The startup completes whenever the operating
  system refuses neither creation and no regular file stands where the parent directory
  belongs.
\<close>

theorem output_dir_exists_after_run:
  "(startup E w = (Inr (), w1) \<and> (\<forall>c. w_fs w output_dir \<noteq> Some (File c)) \<longrightarrow>
      script E w = generate_icons E source_file w1
      \<and> w_fs w1 output_dir = Some Dir
      \<and> w_fs (snd (generate_icons E source_path w1)) output_dir = Some Dir
      \<and> w_fs (snd (script E w)) output_dir = Some Dir
      \<and> (\<not> path_exists w output_dir \<longrightarrow> w_fs w1 ''public'' = Some Dir))
   \<and> (mkdir_fault E ''public'' = None \<and> mkdir_fault E output_dir = None
        \<and> (\<forall>c. w_fs w ''public'' \<noteq> Some (File c)) \<longrightarrow>
      fst (startup E w) = Inr ())"
  using startup_then_run [of E w w1 source_path] startup_succeeds [of E w] by blast

theorem output_dir_exists_after_run_witness:
  "startup quiet_env empty_world = (Inr (), dirs_world)
   \<and> (\<forall>c. w_fs empty_world output_dir \<noteq> Some (File c))
   \<and> \<not> path_exists empty_world output_dir
   \<and> script quiet_env empty_world = generate_icons quiet_env source_file dirs_world
   \<and> w_fs dirs_world ''public'' = Some Dir
   \<and> w_fs dirs_world output_dir = Some Dir
   \<and> w_fs (snd (script quiet_env empty_world)) output_dir = Some Dir
   \<and> startup quiet_env fresh_world = (Inr (), ready_world)
   \<and> (\<forall>c. w_fs fresh_world output_dir \<noteq> Some (File c))
   \<and> w_fs (snd (generate_icons quiet_env source_file ready_world)) output_dir = Some Dir
   \<and> w_fs (snd (script quiet_env fresh_world)) output_dir = Some Dir
   \<and> mkdir_fault quiet_env ''public'' = None \<and> mkdir_fault quiet_env output_dir = None
   \<and> (\<forall>c. w_fs fresh_world ''public'' \<noteq> Some (File c))
   \<and> fst (startup quiet_env fresh_world) = Inr ()"
proof -
  have none: "\<not> path_exists empty_world output_dir"
    "\<forall>c. w_fs empty_world output_dir \<noteq> Some (File c)"
    "\<forall>c. w_fs fresh_world output_dir \<noteq> Some (File c)"
    by (simp_all add: path_exists_def empty_world_def fresh_world_def output_dir_def)
  have quiet: "mkdir_fault quiet_env ''public'' = None" "mkdir_fault quiet_env output_dir = None"
    "\<forall>c. w_fs fresh_world ''public'' \<noteq> Some (File c)"
    by (simp_all add: quiet_env_def fresh_world_def)
  from output_dir_exists_after_run [of quiet_env empty_world dirs_world source_file]
    output_dir_exists_after_run [of quiet_env fresh_world ready_world source_file]
    none quiet startup_empty_world startup_fresh_world
  show ?thesis by blast
qed

text \<open>
  Claim C5. After a successful run of \<^verbatim>\<open>generate_icons\<close>, a second run on the same source
  image, in the same environment, is successful as well and leaves every file as the first
  run left it: the outputs are overwritten with identical contents.
\<close>

theorem second_run_identical:
  assumes "w_fs w source_path = Some (File (Encoded f img))"
    and "successful source_path w (generate_icons E source_path w)"
    and "w1 = snd (generate_icons E source_path w)"
    and "w_fs w1 source_path = Some (File (Encoded f img))"
  shows "successful source_path w1 (generate_icons E source_path w1)
         \<and> w_fs (snd (generate_icons E source_path w1)) = w_fs w1"
proof -
  from assms(2) have sf: "source_fault E w source_path = None"
    and ok: "list_all (size_ok E img w) sizes"
    unfolding successful_iff [OF assms(1)] by simp_all
  from successful_run [OF assms(1,2)] have
    files1: "list_all (\<lambda>s. w_fs w1 (icon_path s)
               = Some (File (Encoded PNG (resized E img s)))) sizes"
    and frame1: "\<forall>p. p \<notin> icon_path ` set sizes \<longrightarrow> w_fs w1 p = w_fs w p"
    unfolding run_post_def assms(3) by simp_all
  have dirs: "w_fs w1 d = Some Dir" if "w_fs w d = Some Dir" for d
  proof -
    have "d \<notin> icon_path ` set sizes"
    proof
      assume "d \<in> icon_path ` set sizes"
      then obtain s where s: "s \<in> set sizes" and d: "d = icon_path s" by blast
      from ok s have "size_ok E img w s" by (simp add: list_all_iff)
      then have "w_fs w (icon_path s) \<noteq> Some Dir" by (simp add: size_ok_def)
      with that d show False by simp
    qed
    with frame1 that show ?thesis by simp
  qed
  have walk: "walk_fault w1 ds = None" if "walk_fault w ds = None" for ds
    using that dirs unfolding walk_fault_None list_all_iff by blast
  have pf: "parent_fault w1 p = None" if "parent_fault w p = None" for p
    using that walk [of "ancestors p"]
    by (simp add: parent_fault_def split: option.splits if_splits)
  from sf have sf1: "source_fault E w1 source_path = None"
    using pf [of source_path] by (simp add: source_fault_def split: option.splits)
  have ok1: "list_all (size_ok E img w1) sizes"
    unfolding list_all_iff
  proof
    fix s assume s: "s \<in> set sizes"
    with ok have "size_ok E img w s" by (simp add: list_all_iff)
    moreover from files1 s have "w_fs w1 (icon_path s) \<noteq> Some Dir" by (simp add: list_all_iff)
    ultimately show "size_ok E img w1 s" using pf [of "icon_path s"] by (simp add: size_ok_def)
  qed
  with sf1 have ok2: "successful source_path w1 (generate_icons E source_path w1)"
    unfolding successful_iff [OF assms(4)] by simp
  from successful_run [OF assms(4) ok2] have
    files2: "list_all (\<lambda>s. w_fs (snd (generate_icons E source_path w1)) (icon_path s)
               = Some (File (Encoded PNG (resized E img s)))) sizes"
    and frame2: "\<forall>p. p \<notin> icon_path ` set sizes
                   \<longrightarrow> w_fs (snd (generate_icons E source_path w1)) p = w_fs w1 p"
    unfolding run_post_def by simp_all
  have "w_fs (snd (generate_icons E source_path w1)) = w_fs w1"
  proof
    fix p
    show "w_fs (snd (generate_icons E source_path w1)) p = w_fs w1 p"
    proof (cases "p \<in> icon_path ` set sizes")
      case True
      then obtain s where "s \<in> set sizes" "p = icon_path s" by blast
      with files1 files2 show ?thesis by (simp add: list_all_iff)
    next
      case False
      with frame2 show ?thesis by blast
    qed
  qed
  with ok2 show ?thesis by simp
qed

theorem second_run_identical_witness:
  "w_fs ready_world ''GenerateIcons/master-icon.png'' = Some (File (Encoded JPEG master_icon))
   \<and> successful ''GenerateIcons/master-icon.png'' ready_world
       (generate_icons quiet_env ''GenerateIcons/master-icon.png'' ready_world)
   \<and> w_fs (snd (generate_icons quiet_env ''GenerateIcons/master-icon.png'' ready_world))
       ''GenerateIcons/master-icon.png'' = Some (File (Encoded JPEG master_icon))
   \<and> successful ''GenerateIcons/master-icon.png''
       (snd (generate_icons quiet_env ''GenerateIcons/master-icon.png'' ready_world))
       (generate_icons quiet_env ''GenerateIcons/master-icon.png''
          (snd (generate_icons quiet_env ''GenerateIcons/master-icon.png'' ready_world)))
   \<and> w_fs (snd (generate_icons quiet_env ''GenerateIcons/master-icon.png''
          (snd (generate_icons quiet_env ''GenerateIcons/master-icon.png'' ready_world))))
       = w_fs (snd (generate_icons quiet_env ''GenerateIcons/master-icon.png'' ready_world))"
proof -
  let ?src = "''GenerateIcons/master-icon.png''"
  let ?w1 = "snd (generate_icons quiet_env ?src ready_world)"
  have same: "w_fs ?w1 ?src = Some (File (Encoded JPEG master_icon))"
    using generate_icons_frame [OF source_not_icon, of quiet_env ?src ready_world]
    by (simp add: ready_world_source)
  from second_run_identical [OF ready_world_source ready_world_successful refl same]
    ready_world_source ready_world_successful same
  show ?thesis by simp
qed

text \<open>
  Claim C6. The source image that \<^verbatim>\<open>generate_icons\<close> opens is released on every exit path.
  Once opened it is held while the loop runs, however the loop ends; the \<^verbatim>\<open>with\<close> statement
  releases it; and after the operation, whether it returned or raised, the open images are
  those of before.
\<close>

theorem source_image_released:
  "w_open (snd (generate_icons E source_path w)) = w_open w
   \<and> (\<forall>img wo. image_open E source_path w = (Inr img, wo)
        \<longrightarrow> w_open (snd (icons_loop E img sizes wo)) = add_mset source_path (w_open w)
          \<and> w_open (snd (with_image E source_path w)) = w_open w)"
proof (intro conjI allI impI)
  show "w_open (snd (generate_icons E source_path w)) = w_open w"
    by (rule generate_icons_handles)
next
  fix img wo
  assume op: "image_open E source_path w = (Inr img, wo)"
  from image_open_Inr(1) [OF op]
  show held: "w_open (snd (icons_loop E img sizes wo)) = add_mset source_path (w_open w)"
    by (simp add: icons_loop_handles)
  obtain r w2 where loop: "icons_loop E img sizes wo = (r, w2)"
    by (cases "icons_loop E img sizes wo")
  with held have "w_open w2 = add_mset source_path (w_open w)" by simp
  then show "w_open (snd (with_image E source_path w)) = w_open w"
    by (simp add: with_image_def op loop image_close_def)
qed

theorem source_image_released_witness:
  "w_open (snd (generate_icons quiet_env ''GenerateIcons/master-icon.png'' ready_world)) = {#}
   \<and> w_open (snd (generate_icons disk_full_env ''GenerateIcons/master-icon.png'' ready_world)) = {#}
   \<and> image_open disk_full_env ''GenerateIcons/master-icon.png'' ready_world
       = (Inr master_icon, ready_world\<lparr>w_open := {#''GenerateIcons/master-icon.png''#}\<rparr>)
   \<and> w_open (snd (icons_loop disk_full_env master_icon sizes
         (ready_world\<lparr>w_open := {#''GenerateIcons/master-icon.png''#}\<rparr>)))
       = {#''GenerateIcons/master-icon.png''#}
   \<and> w_open (snd (with_image disk_full_env ''GenerateIcons/master-icon.png'' ready_world)) = {#}"
proof -
  let ?src = "''GenerateIcons/master-icon.png''"
  have empty: "w_open ready_world = {#}" by (simp add: ready_world_def)
  have op: "image_open disk_full_env ?src ready_world
      = (Inr master_icon, ready_world\<lparr>w_open := {#?src#}\<rparr>)"
    by (simp add: image_open_def parent_fault_def name_fault_def long_name_def ancestors_def is_sep_def
        ready_world_def disk_full_env_def quiet_env_def)
  from source_image_released [of quiet_env ?src ready_world]
    source_image_released [of disk_full_env ?src ready_world] op empty
  show ?thesis by simp
qed

text \<open>
  Claim C7. Whatever the format of the source image, every file that a run of
  \<^verbatim>\<open>generate_icons\<close> has saved is the icon of one of the sizes, its name selects the PNG
  format, and at the end of the run it holds a PNG encoding.
\<close>

theorem saved_files_are_png:
  assumes "w_fs w source_path = Some (File (Encoded f img))"
    and "EvSave p \<in> set (new_events w (snd (generate_icons E source_path w)))"
  shows "\<exists>sz\<in>set sizes. p = icon_path sz \<and> format_of_path p = Some PNG
           \<and> w_fs (snd (generate_icons E source_path w)) p
               = Some (File (Encoded PNG (resized E img sz)))"
proof (cases rule: generate_icons_cases [of E source_path w])
  case (not_opened e)
  with assms(2) show ?thesis
    by (simp add: new_events_def print_def split: if_splits)
next
  case (opened img' k ev dg)
  from image_open_Inr(2) [OF opened(1)] assms(1) have img: "img' = img" by simp
  from opened(2) have
    tr: "w_trace (snd (generate_icons E source_path w))
           = w_trace w @ concat (map size_events (take k sizes)) @ ev @ dg"
    and ev: "ev = [] \<or> k < length sizes \<and> ev = [EvResize (sizes ! k, sizes ! k)]"
    and dg: "dg = [] \<or> dg = [EvPrint (not_found_msg source_path)]"
    and files: "list_all (\<lambda>s. w_fs (snd (generate_icons E source_path w)) (icon_path s)
                  = Some (File (Encoded PNG (resized E img s)))) (take k sizes)"
    unfolding run_post_def img by (auto split: if_splits)
  from assms(2) new_events_append [OF tr] ev dg
  have "EvSave p \<in> set (concat (map size_events (take k sizes)))" by auto
  then obtain sz where sz: "sz \<in> set (take k sizes)" "p = icon_path sz"
    unfolding saved_in_size_events by blast
  with files have "w_fs (snd (generate_icons E source_path w)) p
      = Some (File (Encoded PNG (resized E img sz)))"
    by (simp add: list_all_iff)
  moreover have "sz \<in> set sizes" using sz(1) by (rule in_set_takeD)
  ultimately show ?thesis using sz(2) format_of_icon_path by blast
qed

theorem saved_files_are_png_witness:
  "w_fs ready_world ''GenerateIcons/master-icon.png'' = Some (File (Encoded JPEG master_icon))
   \<and> EvSave ''public/icons/icon-192x192.png''
       \<in> set (new_events ready_world
                (snd (generate_icons quiet_env ''GenerateIcons/master-icon.png'' ready_world)))
   \<and> (\<exists>sz\<in>set sizes. ''public/icons/icon-192x192.png'' = icon_path sz
         \<and> format_of_path ''public/icons/icon-192x192.png'' = Some PNG
         \<and> w_fs (snd (generate_icons quiet_env ''GenerateIcons/master-icon.png'' ready_world))
              ''public/icons/icon-192x192.png''
             = Some (File (Encoded PNG (resized quiet_env master_icon sz))))"
proof -
  let ?src = "''GenerateIcons/master-icon.png''"
  let ?out = "generate_icons quiet_env ?src ready_world"
  from successful_run [OF ready_world_source ready_world_successful]
  have "w_trace (snd ?out) = w_trace ready_world @ concat (map size_events sizes)"
    unfolding run_post_def by simp
  from new_events_append [OF this]
  have "set (new_events ready_world (snd ?out)) = set (concat (map size_events sizes))"
    by simp
  moreover have "''public/icons/icon-192x192.png'' \<in> icon_path ` set sizes"
  proof -
    have "icon_path ` set sizes = set (map icon_path sizes)" by simp
    then show ?thesis unfolding icon_paths_literal by simp
  qed
  ultimately have saved: "EvSave ''public/icons/icon-192x192.png''
      \<in> set (new_events ready_world (snd ?out))"
    by (simp only: saved_in_size_events)
  from saved_files_are_png [OF ready_world_source saved] ready_world_source saved
  show ?thesis by blast
qed

text \<open>
  Claim C8. The sizes are processed one at a time in the order of the list: what a run adds
  to the trace is, for the first \<open>k\<close> sizes in order, the resize, then the save, then the
  success notice of that size; then at most the resize of the size at which the run
  failed, and at most the diagnostic of the handler. A successful run has all eight groups
  and nothing else.
\<close>

theorem sizes_processed_in_order:
  "\<exists>k ev dg. k \<le> length sizes
     \<and> new_events w (snd (generate_icons E source_path w))
         = concat (map (\<lambda>sz. [EvResize (sz, sz), EvSave (icon_path sz), EvPrint (created_msg sz)])
             (take k sizes)) @ ev @ dg
     \<and> (ev = [] \<or> k < length sizes \<and> ev = [EvResize (sizes ! k, sizes ! k)])
     \<and> (dg = [] \<or> dg = [EvPrint (not_found_msg source_path)])
     \<and> (successful source_path w (generate_icons E source_path w)
          \<longrightarrow> k = length sizes \<and> ev = [] \<and> dg = [])"
proof (cases rule: generate_icons_cases [of E source_path w])
  case (not_opened e)
  from not_opened_unsuccessful [OF not_opened(1)]
  have no: "\<not> successful source_path w (generate_icons E source_path w)" .
  show ?thesis
  proof (cases "e = FileNotFoundError")
    case True
    with not_opened(2) have "new_events w (snd (generate_icons E source_path w))
        = [EvPrint (not_found_msg source_path)]"
      by (simp add: new_events_def print_def)
    with no show ?thesis
      by (intro exI [of _ 0] exI [of _ "[]"] exI [of _ "[EvPrint (not_found_msg source_path)]"]) simp
  next
    case False
    with not_opened(2) have "new_events w (snd (generate_icons E source_path w)) = []"
      by (simp add: new_events_def)
    with no show ?thesis
      by (intro exI [of _ 0] exI [of _ "[]"] exI [of _ "[]"]) simp
  qed
next
  case (opened img k ev dg)
  from opened(2) have
    k: "k \<le> length sizes"
    and tr: "w_trace (snd (generate_icons E source_path w))
           = w_trace w @ concat (map size_events (take k sizes)) @ ev @ dg"
    and ev: "ev = [] \<or> k < length sizes \<and> ev = [EvResize (sizes ! k, sizes ! k)]"
    and dg: "dg = [] \<or> dg = [EvPrint (not_found_msg source_path)]"
    and full: "k = length sizes \<longrightarrow> ev = [] \<and> dg = []"
    unfolding run_post_def by (auto split: if_splits)
  from run_post_complete [OF opened(2)] full
  have "successful source_path w (generate_icons E source_path w)
          \<longrightarrow> k = length sizes \<and> ev = [] \<and> dg = []" by blast
  with k new_events_append [OF tr] ev dg show ?thesis
    unfolding size_events_eq by blast
qed

theorem sizes_processed_in_order_witness:
  "successful ''GenerateIcons/master-icon.png'' ready_world
     (generate_icons quiet_env ''GenerateIcons/master-icon.png'' ready_world)
   \<and> new_events ready_world
       (snd (generate_icons quiet_env ''GenerateIcons/master-icon.png'' ready_world))
     = concat (map (\<lambda>sz. [EvResize (sz, sz), EvSave (icon_path sz), EvPrint (created_msg sz)])
         [72, 96, 128, 144, 152, 192, 384, 512])"
proof -
  let ?src = "''GenerateIcons/master-icon.png''"
  from sizes_processed_in_order [of ready_world quiet_env ?src] ready_world_successful
  obtain k ev dg where "k = length sizes" "ev = []" "dg = []"
    "new_events ready_world (snd (generate_icons quiet_env ?src ready_world))
       = concat (map (\<lambda>sz. [EvResize (sz, sz), EvSave (icon_path sz), EvPrint (created_msg sz)])
           (take k sizes)) @ ev @ dg"
    by blast
  then have "new_events ready_world (snd (generate_icons quiet_env ?src ready_world))
       = concat (map (\<lambda>sz. [EvResize (sz, sz), EvSave (icon_path sz), EvPrint (created_msg sz)])
           sizes)"
    by simp
  with ready_world_successful show ?thesis by (simp add: sizes_def)
qed

text \<open>
  Claim C9. \<^verbatim>\<open>generate_icons\<close> does not roll back: when a run on a decodable source stops
  after \<open>k\<close> sizes (it printed the success notices of the first \<open>k\<close> sizes, and \<open>k\<close> is less
  than eight exactly when the run was not successful), the files of these \<open>k\<close> sizes are on
  disk at the end, with their contents.
\<close>

theorem written_files_survive_fault:
  assumes "w_fs w source_path = Some (File (Encoded f img))"
  shows "\<exists>k dg. k \<le> length sizes
     \<and> printed (new_events w (snd (generate_icons E source_path w)))
         = map created_msg (take k sizes) @ dg
     \<and> (dg = [] \<or> dg = [not_found_msg source_path])
     \<and> (\<forall>j<k. w_fs (snd (generate_icons E source_path w)) (icon_path (sizes ! j))
                 = Some (File (Encoded PNG (resized E img (sizes ! j)))))
     \<and> (successful source_path w (generate_icons E source_path w) \<longleftrightarrow> k = length sizes)"
proof (cases rule: generate_icons_cases [of E source_path w])
  case (not_opened e)
  from not_opened_unsuccessful [OF not_opened(1)]
  have no: "\<not> successful source_path w (generate_icons E source_path w)" .
  have len: "0 \<noteq> length sizes" by (simp add: sizes_def)
  show ?thesis
  proof (cases "e = FileNotFoundError")
    case True
    with not_opened(2) have "printed (new_events w (snd (generate_icons E source_path w)))
        = [not_found_msg source_path]"
      by (simp add: new_events_def print_def)
    with no len show ?thesis
      by (intro exI [of _ 0] exI [of _ "[not_found_msg source_path]"]) simp
  next
    case False
    with not_opened(2) have "printed (new_events w (snd (generate_icons E source_path w))) = []"
      by (simp add: new_events_def)
    with no len show ?thesis
      by (intro exI [of _ 0] exI [of _ "[]"]) simp
  qed
next
  case (opened img' k ev dg)
  from image_open_Inr(2) [OF opened(1)] assms(1) have img: "img' = img" by simp
  from opened(2) have
    k: "k \<le> length sizes"
    and tr: "w_trace (snd (generate_icons E source_path w))
           = w_trace w @ concat (map size_events (take k sizes)) @ ev @ dg"
    and ev: "ev = [] \<or> k < length sizes \<and> ev = [EvResize (sizes ! k, sizes ! k)]"
    and dg: "dg = [] \<or> dg = [EvPrint (not_found_msg source_path)]"
    and files: "list_all (\<lambda>s. w_fs (snd (generate_icons E source_path w)) (icon_path s)
                  = Some (File (Encoded PNG (resized E img s)))) (take k sizes)"
    unfolding run_post_def img by (auto split: if_splits)
  have pr: "printed (new_events w (snd (generate_icons E source_path w)))
              = map created_msg (take k sizes) @ printed dg"
    using ev unfolding new_events_append [OF tr]
    by (auto simp: printed_append printed_size_events)
  have pdg: "printed dg = [] \<or> printed dg = [not_found_msg source_path]"
    using dg by auto
  have "\<forall>j<k. w_fs (snd (generate_icons E source_path w)) (icon_path (sizes ! j))
                 = Some (File (Encoded PNG (resized E img (sizes ! j))))"
  proof (intro allI impI)
    fix j assume "j < k"
    with k have "sizes ! j \<in> set (take k sizes)"
      by (metis in_set_conv_nth length_take min.absorb2 nth_take)
    with files show "w_fs (snd (generate_icons E source_path w)) (icon_path (sizes ! j))
                 = Some (File (Encoded PNG (resized E img (sizes ! j))))"
      by (simp add: list_all_iff)
  qed
  with k pr pdg run_post_complete [OF opened(2)] show ?thesis by blast
qed

theorem written_files_survive_fault_witness:
  "w_fs ready_world ''GenerateIcons/master-icon.png'' = Some (File (Encoded JPEG master_icon))
   \<and> fst (generate_icons disk_full_env ''GenerateIcons/master-icon.png'' ready_world) = Inl OSError
   \<and> w_fs (snd (generate_icons disk_full_env ''GenerateIcons/master-icon.png'' ready_world))
        ''public/icons/icon-128x128.png''
       = Some (File (Encoded PNG \<lparr>img_size = (128, 128), img_data = []\<rparr>))
   \<and> w_fs (snd (generate_icons disk_full_env ''GenerateIcons/master-icon.png'' ready_world))
        ''public/icons/icon-144x144.png'' = None
   \<and> (\<exists>k dg. k \<le> length sizes
        \<and> printed (new_events ready_world
             (snd (generate_icons disk_full_env ''GenerateIcons/master-icon.png'' ready_world)))
            = map created_msg (take k sizes) @ dg
        \<and> (dg = [] \<or> dg = [not_found_msg ''GenerateIcons/master-icon.png''])
        \<and> (\<forall>j<k. w_fs (snd (generate_icons disk_full_env ''GenerateIcons/master-icon.png''
                      ready_world)) (icon_path (sizes ! j))
                   = Some (File (Encoded PNG (resized disk_full_env master_icon (sizes ! j)))))
        \<and> (successful ''GenerateIcons/master-icon.png'' ready_world
              (generate_icons disk_full_env ''GenerateIcons/master-icon.png'' ready_world)
             \<longleftrightarrow> k = length sizes))"
proof -
  let ?src = "''GenerateIcons/master-icon.png''"
  have 1: "fst (generate_icons disk_full_env ?src ready_world) = Inl OSError"
    by (simp add: run_defs)
  have 2: "w_fs (snd (generate_icons disk_full_env ?src ready_world))
        ''public/icons/icon-128x128.png''
       = Some (File (Encoded PNG \<lparr>img_size = (128, 128), img_data = []\<rparr>))"
    by (simp add: run_defs)
  have 3: "w_fs (snd (generate_icons disk_full_env ?src ready_world))
        ''public/icons/icon-144x144.png'' = None"
    by (simp add: run_defs)
  from written_files_survive_fault [OF ready_world_source, of disk_full_env] ready_world_source 1 2 3
  show ?thesis by simp
qed

text \<open>
  Claim C10. When the output path already exists, be it a directory or not, startup skips
  the creation and leaves the world as it is. So the startup never raises
  \<^verbatim>\<open>FileExistsError\<close>, unless the operating system reports that error for a path that
  does not exist.
\<close>

theorem startup_skips_existing_path:
  "(path_exists w output_dir \<longrightarrow> startup E w = (Inr (), w))
   \<and> ((\<forall>p. mkdir_fault E p \<noteq> Some FileExistsError) \<longrightarrow> fst (startup E w) \<noteq> Inl FileExistsError)"
proof (intro conjI impI)
  assume "path_exists w output_dir"
  then show "startup E w = (Inr (), w)" by (simp add: startup_def)
next
  assume quiet: "\<forall>p. mkdir_fault E p \<noteq> Some FileExistsError"
  have no: "e \<noteq> FileExistsError"
    if "mkdir E p w0 = (Inl e, w2)" and "\<not> path_exists w0 p" for p w0 e w2
    using mkdir_Inl(2) [OF that(1)] that(2) quiet by blast
  show "fst (startup E w) \<noteq> Inl FileExistsError"
  proof (cases "path_exists w output_dir")
    case True
    then show ?thesis by (simp add: startup_def)
  next
    case absent: False
    have leaf: "fst (mkdir E output_dir w0) \<noteq> Inl FileExistsError"
      if "\<not> path_exists w0 output_dir" for w0
      using no [OF _ that] by (cases "mkdir E output_dir w0") auto
    show ?thesis
    proof (cases "path_exists w ''public''")
      case True
      with absent leaf [OF absent] show ?thesis
        by (simp add: startup_def makedirs_output_dir)
    next
      case False
      obtain r wp where mp: "mkdir E ''public'' w = (r, wp)"
        by (cases "mkdir E ''public'' w")
      show ?thesis
      proof (cases r)
        case (Inl e)
        with mp have mp': "mkdir E ''public'' w = (Inl e, wp)" by simp
        from no [OF mp' False] have "e \<noteq> FileExistsError" .
        with absent False mp' show ?thesis
          by (simp add: startup_def makedirs_output_dir)
      next
        case (Inr u)
        with mp have mp': "mkdir E ''public'' w = (Inr u, wp)" by simp
        from mkdir_Inr(1) [OF mp'] absent have "\<not> path_exists wp output_dir"
          by (simp add: path_exists_def output_dir_def)
        from leaf [OF this] absent False mp' show ?thesis
          by (simp add: startup_def makedirs_output_dir)
      qed
    qed
  qed
qed

theorem startup_skips_existing_path_witness:
  "path_exists ready_world output_dir
   \<and> startup quiet_env ready_world = (Inr (), ready_world)
   \<and> path_exists file_in_the_way_world output_dir
   \<and> startup quiet_env file_in_the_way_world = (Inr (), file_in_the_way_world)
   \<and> (\<forall>p. mkdir_fault quiet_env p \<noteq> Some FileExistsError)
   \<and> fst (startup quiet_env empty_world) \<noteq> Inl FileExistsError"
proof -
  have a: "path_exists ready_world output_dir"
    by (simp add: path_exists_def ready_world_def output_dir_def)
  have b: "path_exists file_in_the_way_world output_dir"
    by (simp add: path_exists_def file_in_the_way_world_def output_dir_def)
  have c: "\<forall>p. mkdir_fault quiet_env p \<noteq> Some FileExistsError"
    by (simp add: quiet_env_def)
  from startup_skips_existing_path [of ready_world quiet_env]
    startup_skips_existing_path [of file_in_the_way_world quiet_env]
    startup_skips_existing_path [of empty_world quiet_env] a b c
  show ?thesis by blast
qed

end
